theory Spec2Isabelle
  imports Main "HOL-Library.AList"
begin

section \<open>Python string operations used by \<^verbatim>\<open>scripts/reorganize_tests.py\<close>\<close>

text \<open>
  Strings are lists of characters. Case conversion is modelled on the ASCII letters;
  every other character is left as it is.
\<close>

fun startswith :: "'a list \<Rightarrow> 'a list \<Rightarrow> bool" where
  "startswith s [] = True"
| "startswith [] (p # ps) = False"
| "startswith (c # s) (p # ps) = (c = p \<and> startswith s ps)"

definition endswith :: "'a list \<Rightarrow> 'a list \<Rightarrow> bool" where
  "endswith s suf = startswith (rev s) (rev suf)"

text \<open>\<^verbatim>\<open>sub in s\<close>: \<open>sub\<close> occurs in \<open>s\<close> as a contiguous substring.\<close>

fun contains :: "'a list \<Rightarrow> 'a list \<Rightarrow> bool" where
  "contains [] sub = (sub = [])"
| "contains (c # s) sub = (startswith (c # s) sub \<or> contains s sub)"

text \<open>
  \<^verbatim>\<open>s.replace(old, new)\<close> for a non-empty \<open>old\<close>: one pass from the left over the
  non-overlapping occurrences. The first argument counts the characters of a matched
  occurrence that are still to be skipped.
\<close>

fun replace_from :: "nat \<Rightarrow> string \<Rightarrow> string \<Rightarrow> string \<Rightarrow> string" where
  "replace_from k old new [] = []"
| "replace_from (Suc k) old new (c # s) = replace_from k old new s"
| "replace_from 0 old new (c # s) =
     (if startswith (c # s) old then new @ replace_from (length old - 1) old new s
      else c # replace_from 0 old new s)"

text \<open>With an empty \<open>old\<close> Python puts \<open>new\<close> before every character and at the end.\<close>

definition py_replace :: "string \<Rightarrow> string \<Rightarrow> string \<Rightarrow> string" where
  "py_replace s old new =
     (if old = [] then new @ concat (map (\<lambda>c. c # new) s) else replace_from 0 old new s)"

text \<open>\<^verbatim>\<open>s.split(sep)\<close> for a one-character separator.\<close>

fun py_split :: "char \<Rightarrow> string \<Rightarrow> string list" where
  "py_split sep [] = [[]]"
| "py_split sep (c # s) =
     (if c = sep then [] # py_split sep s
      else (case py_split sep s of [] \<Rightarrow> [[c]] | w # ws \<Rightarrow> (c # w) # ws))"

fun join :: "string \<Rightarrow> string list \<Rightarrow> string" where
  "join sep [] = []"
| "join sep [w] = w"
| "join sep (w # v # ws) = w @ sep @ join sep (v # ws)"

definition lower_char :: "char \<Rightarrow> char" where
  "lower_char c =
     (case map_of (zip ''ABCDEFGHIJKLMNOPQRSTUVWXYZ'' ''abcdefghijklmnopqrstuvwxyz'') c of
        None \<Rightarrow> c | Some d \<Rightarrow> d)"

definition upper_char :: "char \<Rightarrow> char" where
  "upper_char c =
     (case map_of (zip ''abcdefghijklmnopqrstuvwxyz'' ''ABCDEFGHIJKLMNOPQRSTUVWXYZ'') c of
        None \<Rightarrow> c | Some d \<Rightarrow> d)"

definition lower :: "string \<Rightarrow> string" where
  "lower s = map lower_char s"

text \<open>\<^verbatim>\<open>s.capitalize()\<close>: the first character in upper case, all the others in lower case.\<close>

definition capitalize :: "string \<Rightarrow> string" where
  "capitalize s = (case s of [] \<Rightarrow> [] | c # cs \<Rightarrow> upper_char c # map lower_char cs)"

text \<open>\<^verbatim>\<open>s.rfind(c)\<close>, with \<open>None\<close> for Python's \<open>-1\<close>.\<close>

fun rfind :: "char \<Rightarrow> string \<Rightarrow> nat option" where
  "rfind c [] = None"
| "rfind c (x # xs) =
     (case rfind c xs of Some i \<Rightarrow> Some (Suc i) | None \<Rightarrow> if x = c then Some 0 else None)"


section \<open>Paths\<close>

text \<open>
  A path is the list of its segments below the filesystem root, as \<^verbatim>\<open>pathlib.Path\<close>
  keeps it; \<open>path_str\<close> is \<^verbatim>\<open>str(path)\<close> on a POSIX system. Segments are non-empty,
  contain no \<^verbatim>\<open>/\<close> and are neither \<^verbatim>\<open>.\<close> nor \<^verbatim>\<open>..\<close>.
\<close>

type_synonym path = "string list"

definition path_str :: "path \<Rightarrow> string" where
  "path_str p = CHR ''/'' # join ''/'' p"

text \<open>\<^verbatim>\<open>str(Path(root).relative_to(tests_dir))\<close>: the root itself is \<^verbatim>\<open>.\<close>.\<close>

definition rel_str :: "path \<Rightarrow> string" where
  "rel_str rel = (if rel = [] then ''.'' else join ''/'' rel)"

definition relative_to :: "path \<Rightarrow> path \<Rightarrow> path" where
  "relative_to p base = drop (length base) p"

text \<open>\<^verbatim>\<open>Path(s)\<close> of a string: repeated slashes and \<^verbatim>\<open>.\<close> segments disappear.\<close>

definition parse_path :: "string \<Rightarrow> path" where
  "parse_path s = filter (\<lambda>seg. seg \<noteq> [] \<and> seg \<noteq> ''.'') (py_split CHR ''/'' s)"

definition name :: "path \<Rightarrow> string" where
  "name p = (if p = [] then [] else last p)"

definition parent :: "path \<Rightarrow> path" where
  "parent p = butlast p"

text \<open>\<^verbatim>\<open>PurePath.suffix\<close> and \<^verbatim>\<open>PurePath.stem\<close>, from the last dot of the name.\<close>

definition suffix_of :: "string \<Rightarrow> string" where
  "suffix_of n =
     (case rfind CHR ''.'' n of
        None \<Rightarrow> []
      | Some i \<Rightarrow> if 0 < i \<and> i + 1 < length n then drop i n else [])"

definition stem_of :: "string \<Rightarrow> string" where
  "stem_of n =
     (case rfind CHR ''.'' n of
        None \<Rightarrow> n
      | Some i \<Rightarrow> if 0 < i \<and> i + 1 < length n then take i n else n)"

text \<open>
  \<^verbatim>\<open>path.with_suffix(s)\<close> for a suffix \<open>s\<close> that starts with a dot and has no slash
  (the only use in the script is \<^verbatim>\<open>old.suffix + '.bak'\<close>).
\<close>

definition with_suffix :: "path \<Rightarrow> string \<Rightarrow> path" where
  "with_suffix p s =
     (let n = name p; old_suffix = suffix_of n
      in parent p @
         [if old_suffix = [] then n @ s else take (length n - length old_suffix) n @ s])"


section \<open>Classification (\<^verbatim>\<open>analyze_current_structure\<close>)\<close>

definition framework_files :: "string list" where
  "framework_files = [''TestUtilities.cpp'', ''TestUtilities.h'', ''MockObject.cpp'', ''MockObject.h'']"

text \<open>
  The chain of tests of lines 53 to 73: the category of a file from the string of its
  directory relative to the tests root and its file name.
\<close>

definition classify :: "string \<Rightarrow> string \<Rightarrow> string" where
  "classify rel_path file =
     (if contains rel_path ''unit'' \<or> contains file ''test_'' then
        (if contains (lower file) ''search'' then ''unit''
         else if contains (lower file) ''error'' then ''unit''
         else if contains (lower file) ''qgraphics'' then ''unit''
         else ''unit'')
      else if contains rel_path ''integration'' then ''integration''
      else if contains rel_path ''performance'' then ''performance''
      else if contains rel_path ''controller'' then ''controller''
      else if contains rel_path ''command'' then ''command''
      else if contains rel_path ''factory'' then ''factory''
      else ''misc'')"


section \<open>Name generation (\<^verbatim>\<open>generate_new_name\<close>)\<close>

text \<open>Lines 83 and 84: the four replacements that clean the stem.\<close>

definition clean_name :: "string \<Rightarrow> string" where
  "clean_name old_name =
     py_replace (py_replace (py_replace (py_replace old_name ''test_'' []) ''Test'' [])
       ''_new'' []) ''_test'' []"

definition pascal_case :: "string \<Rightarrow> string" where
  "pascal_case cleaned = concat (map capitalize (py_split CHR ''_'' cleaned))"

definition category_map :: "(string \<times> string) list" where
  "category_map =
     [(''unit'', ''Unit''), (''integration'', ''Integration''),
      (''performance'', ''Performance''), (''controller'', ''Controller''),
      (''command'', ''Command''), (''factory'', ''Factory'')]"

definition special_name :: "string \<Rightarrow> string \<Rightarrow> string" where
  "special_name old_name generic =
     (let l = lower old_name in
      if contains l ''search'' \<and> contains l ''integration'' then ''SearchIntegration''
      else if contains l ''search'' \<and> contains l ''engine'' then ''SearchEngine''
      else if contains l ''search'' \<and> contains l ''validation'' then ''SearchValidation''
      else if contains l ''rendering'' \<and> contains l ''performance'' then ''RenderingPerformance''
      else if contains l ''state'' \<and> contains l ''manager'' then ''StateManager''
      else if contains l ''service'' \<and> contains l ''locator'' then ''ServiceLocator''
      else if contains l ''model'' \<and> contains l ''factory'' then ''ModelFactory''
      else generic)"

definition generate_new_name :: "path \<Rightarrow> string \<Rightarrow> string" where
  "generate_new_name old_path category =
     (let old_name = stem_of (name old_path);
          extension = suffix_of (name old_path);
          prefix = (case map_of category_map category of None \<Rightarrow> ''Test'' | Some p \<Rightarrow> p);
          pascal = special_name old_name (pascal_case (clean_name old_name))
      in prefix @ ''_'' @ pascal @ ''_Test'' @ extension)"



section \<open>The file tree\<close>

text \<open>
  The regular files with their contents, in the order in which \<^verbatim>\<open>os.walk\<close> lists
  them, and the directories that are listed on their own (an empty directory has to be).
  Every proper prefix of the path of a file or of a listed directory is a directory as
  well. Paths compare by their characters (a POSIX filesystem); symbolic links,
  permissions and texts that are not valid UTF-8 are outside the model.
\<close>

record filesystem =
  files :: "(path \<times> string) list"
  dirs :: "path list"

definition below :: "path \<Rightarrow> path \<Rightarrow> bool" where
  "below d p = (startswith p d \<and> p \<noteq> d)"

definition is_file :: "filesystem \<Rightarrow> path \<Rightarrow> bool" where
  "is_file fs p = (p \<in> set (map fst (files fs)))"

definition is_dir :: "filesystem \<Rightarrow> path \<Rightarrow> bool" where
  "is_dir fs p =
     (p = [] \<or> p \<in> set (dirs fs) \<or> list_ex (below p) (map fst (files fs))
      \<or> list_ex (below p) (dirs fs))"

definition path_exists :: "filesystem \<Rightarrow> path \<Rightarrow> bool" where
  "path_exists fs p = (is_file fs p \<or> is_dir fs p)"

text \<open>
  \<^verbatim>\<open>Path(s).exists()\<close> for the text of an absolute path: the operating system follows
  a \<^verbatim>\<open>..\<close> segment to the parent, provided that what precedes it is a directory.
\<close>

fun resolve :: "filesystem \<Rightarrow> path \<Rightarrow> string list \<Rightarrow> path option" where
  "resolve fs cur [] = Some cur"
| "resolve fs cur (seg # segs) =
     (if seg = ''..'' then (if is_dir fs cur then resolve fs (butlast cur) segs else None)
      else resolve fs (cur @ [seg]) segs)"

definition str_exists :: "filesystem \<Rightarrow> string \<Rightarrow> bool" where
  "str_exists fs s =
     (case resolve fs [] (parse_path s) of None \<Rightarrow> False | Some p \<Rightarrow> path_exists fs p)"

definition write_file :: "filesystem \<Rightarrow> path \<Rightarrow> string \<Rightarrow> filesystem" where
  "write_file fs p content = fs\<lparr>files := AList.update p content (files fs)\<rparr>"

text \<open>Taking a file away leaves the directory that held it.\<close>

definition remove_file :: "filesystem \<Rightarrow> path \<Rightarrow> filesystem" where
  "remove_file fs p =
     fs\<lparr>files := AList.delete p (files fs), dirs := List.insert (parent p) (dirs fs)\<rparr>"

text \<open>The files that \<^verbatim>\<open>os.walk(tests_dir)\<close> and \<^verbatim>\<open>tests_dir.rglob\<close> reach.\<close>

definition walk_files :: "path \<Rightarrow> filesystem \<Rightarrow> path list" where
  "walk_files tests_dir fs = filter (below tests_dir) (map fst (files fs))"


section \<open>\<^verbatim>\<open>analyze_current_structure\<close>\<close>

type_synonym file_structure = "(string \<times> path list) list"

definition initial_structure :: file_structure where
  "initial_structure =
     [(''unit'', []), (''integration'', []), (''performance'', []), (''controller'', []),
      (''command'', []), (''factory'', []), (''misc'', [])]"

text \<open>\<^verbatim>\<open>structure[category].append(path)\<close>\<close>

definition append_to :: "file_structure \<Rightarrow> string \<Rightarrow> path \<Rightarrow> file_structure" where
  "append_to st category p = map (\<lambda>(k, ps). if k = category then (k, ps @ [p]) else (k, ps)) st"

fun analyze_loop :: "path \<Rightarrow> path list \<Rightarrow> file_structure \<Rightarrow> file_structure" where
  "analyze_loop tests_dir [] st = st"
| "analyze_loop tests_dir (p # ps) st =
     (if endswith (name p) ''.cpp'' \<or> endswith (name p) ''.h'' then
        (if name p \<in> set framework_files then analyze_loop tests_dir ps st
         else analyze_loop tests_dir ps
                (append_to st (classify (rel_str (relative_to (parent p) tests_dir)) (name p)) p))
      else analyze_loop tests_dir ps st)"

definition analyze_current_structure :: "path \<Rightarrow> filesystem \<Rightarrow> file_structure" where
  "analyze_current_structure tests_dir fs =
     analyze_loop tests_dir (walk_files tests_dir fs) initial_structure"


section \<open>\<^verbatim>\<open>generate_reorganization_plan\<close>\<close>

text \<open>
  The rename map is a Python dictionary: an association list whose keys are distinct, in
  the order of their first insertion.
\<close>

type_synonym plan = "(path \<times> path) list"

definition new_dirs :: "(string \<times> string) list" where
  "new_dirs =
     [(''Unit'', ''Unit''), (''Integration'', ''Integration''),
      (''Performance'', ''Performance''), (''Controller'', ''Controller''),
      (''Command'', ''Command''), (''Factory'', ''Factory''),
      (''Framework'', ''Framework''), (''Utilities'', ''Utilities'')]"

definition target_dir :: "string \<Rightarrow> string" where
  "target_dir category =
     (case map_of new_dirs (capitalize category) of
        None \<Rightarrow> capitalize category | Some d \<Rightarrow> d)"

text \<open>Line 145: a \<^verbatim>\<open>_new\<close> file whose path without \<^verbatim>\<open>_new\<close> exists is skipped.\<close>

definition is_shadow :: "filesystem \<Rightarrow> path \<Rightarrow> bool" where
  "is_shadow fs p =
     (contains (path_str p) ''_new'' \<and> str_exists fs (py_replace (path_str p) ''_new'' []))"

definition new_path_of :: "path \<Rightarrow> path \<Rightarrow> string \<Rightarrow> path" where
  "new_path_of tests_dir p category =
     tests_dir @ [target_dir category, generate_new_name p category]"

fun plan_files :: "path \<Rightarrow> filesystem \<Rightarrow> string \<Rightarrow> path list \<Rightarrow> plan \<Rightarrow> plan" where
  "plan_files tests_dir fs category [] rename_map = rename_map"
| "plan_files tests_dir fs category (p # ps) rename_map =
     (if is_shadow fs p then plan_files tests_dir fs category ps rename_map
      else if name p \<noteq> generate_new_name p category
              \<or> parent p \<noteq> parent (new_path_of tests_dir p category)
      then plan_files tests_dir fs category ps
             (AList.update p (new_path_of tests_dir p category) rename_map)
      else plan_files tests_dir fs category ps rename_map)"

fun plan_categories :: "path \<Rightarrow> filesystem \<Rightarrow> file_structure \<Rightarrow> plan \<Rightarrow> plan" where
  "plan_categories tests_dir fs [] rename_map = rename_map"
| "plan_categories tests_dir fs ((category, fls) # rest) rename_map =
     (if category = ''misc'' then plan_categories tests_dir fs rest rename_map
      else plan_categories tests_dir fs rest (plan_files tests_dir fs category fls rename_map))"

text \<open>The second component is the move map, which the script never fills.\<close>

definition generate_reorganization_plan :: "path \<Rightarrow> filesystem \<Rightarrow> plan \<times> plan" where
  "generate_reorganization_plan tests_dir fs =
     (plan_categories tests_dir fs (analyze_current_structure tests_dir fs) [], [])"



section \<open>Reference rewriting (\<^verbatim>\<open>update_includes\<close>, \<^verbatim>\<open>update_cmake_files\<close>)\<close>

text \<open>
  Reading a file in text mode turns the line ends \<^verbatim>\<open>\r\n\<close> and \<^verbatim>\<open>\r\<close> into
  \<^verbatim>\<open>\n\<close>; writing on a POSIX system writes the text as it is.
\<close>

fun universal_newlines :: "string \<Rightarrow> string" where
  "universal_newlines [] = []"
| "universal_newlines [c] = (if c = CHR 0x0D then [CHR 0x0A] else [c])"
| "universal_newlines (c # d # s) =
     (if c = CHR 0x0D \<and> d = CHR 0x0A then CHR 0x0A # universal_newlines s
      else if c = CHR 0x0D then CHR 0x0A # universal_newlines (d # s)
      else c # universal_newlines (d # s))"

definition dquote :: char where
  "dquote = CHR 0x22"

text \<open>The four forms of an include line of lines 175 to 180, old and new.\<close>

definition include_patterns :: "string \<Rightarrow> string \<Rightarrow> (string \<times> string) list" where
  "include_patterns old_name new_name =
     [(''#include '' @ [dquote] @ old_name @ [dquote],
       ''#include '' @ [dquote] @ new_name @ [dquote]),
      (''#include <'' @ old_name @ ''>'', ''#include <'' @ new_name @ ''>''),
      (''#include '' @ [dquote] @ ''../'' @ old_name @ [dquote],
       ''#include '' @ [dquote] @ ''../'' @ new_name @ [dquote]),
      (''#include '' @ [dquote] @ ''../../'' @ old_name @ [dquote],
       ''#include '' @ [dquote] @ ''../../'' @ new_name @ [dquote])]"

fun replace_patterns :: "(string \<times> string) list \<Rightarrow> string \<Rightarrow> string" where
  "replace_patterns [] content = content"
| "replace_patterns ((old_pattern, new_pattern) # patterns) content =
     replace_patterns patterns (py_replace content old_pattern new_pattern)"

fun rewrite_includes :: "plan \<Rightarrow> string \<Rightarrow> string" where
  "rewrite_includes [] content = content"
| "rewrite_includes ((old_path, new_path) # rename_map) content =
     rewrite_includes rename_map
       (replace_patterns (include_patterns (name old_path) (name new_path)) content)"

text \<open>
  \<^verbatim>\<open>update_includes\<close> returns whether it reports the file as updated, and the file
  tree. A path that cannot be opened as a file raises in \<^verbatim>\<open>open\<close>; the handler
  returns \<^verbatim>\<open>False\<close>.
\<close>

definition update_includes :: "bool \<Rightarrow> path \<Rightarrow> plan \<Rightarrow> filesystem \<Rightarrow> bool \<times> filesystem" where
  "update_includes dry_run file_path rename_map fs =
     (case map_of (files fs) file_path of
        None \<Rightarrow> (False, fs)
      | Some raw \<Rightarrow>
          (let original_content = universal_newlines raw;
               content = rewrite_includes rename_map original_content
           in if content \<noteq> original_content
              then (True, if \<not> dry_run then write_file fs file_path content else fs)
              else (False, fs)))"

text \<open>
  Lines 208 to 219. \<^verbatim>\<open>relative_to\<close> raises for a path that is not below the tests
  root, which is \<open>None\<close> here: the handler of line 227 leaves that file as it is.
\<close>

definition posix_rel :: "path \<Rightarrow> path \<Rightarrow> string" where
  "posix_rel p tests_dir = py_replace (rel_str (relative_to p tests_dir)) [CHR 0x5C] ''/''"

fun rewrite_cmake :: "path \<Rightarrow> plan \<Rightarrow> string \<Rightarrow> string option" where
  "rewrite_cmake tests_dir [] content = Some content"
| "rewrite_cmake tests_dir ((old_path, new_path) # rename_map) content =
     (if startswith old_path tests_dir \<and> startswith new_path tests_dir
      then rewrite_cmake tests_dir rename_map
             (py_replace (py_replace content (name old_path) (name new_path))
                (posix_rel old_path tests_dir) (posix_rel new_path tests_dir))
      else None)"

text \<open>\<^verbatim>\<open>fnmatch(n, 'CMakeLists*.txt')\<close>\<close>

definition is_cmake_name :: "string \<Rightarrow> bool" where
  "is_cmake_name n =
     (startswith n ''CMakeLists'' \<and> endswith n ''.txt'' \<and> 14 \<le> length n)"

definition update_cmake_file :: "bool \<Rightarrow> path \<Rightarrow> path \<Rightarrow> plan \<Rightarrow> filesystem \<Rightarrow> filesystem" where
  "update_cmake_file dry_run tests_dir cmake_file rename_map fs =
     (case map_of (files fs) cmake_file of
        None \<Rightarrow> fs
      | Some raw \<Rightarrow>
          (let original_content = universal_newlines raw
           in case rewrite_cmake tests_dir rename_map original_content of
                None \<Rightarrow> fs
              | Some content \<Rightarrow>
                  if content \<noteq> original_content \<and> \<not> dry_run
                  then write_file fs cmake_file content else fs))"

definition update_cmake_files :: "bool \<Rightarrow> path \<Rightarrow> plan \<Rightarrow> filesystem \<Rightarrow> filesystem" where
  "update_cmake_files dry_run tests_dir rename_map fs =
     fold (\<lambda>cmake_file. update_cmake_file dry_run tests_dir cmake_file rename_map)
       (filter (\<lambda>p. is_cmake_name (name p)) (walk_files tests_dir fs)) fs"


section \<open>Execution (\<^verbatim>\<open>execute_reorganization\<close>)\<close>

text \<open>
  The exceptions that the filesystem calls of the executor raise. None of them is
  caught there: the run stops with the file tree as it is at that moment.
\<close>

datatype error =
  FileExistsError | NotADirectoryError | IsADirectoryError | FileNotFoundError
  | SameFileError | DestinationExists

text \<open>\<^verbatim>\<open>path.mkdir(parents=True, exist_ok=True)\<close>\<close>

definition mkdir_p :: "path \<Rightarrow> filesystem \<Rightarrow> error + filesystem" where
  "mkdir_p p fs =
     (if is_dir fs p then Inr fs
      else if is_file fs p then Inl FileExistsError
      else if list_ex (\<lambda>f. below f p) (map fst (files fs)) then Inl NotADirectoryError
      else Inr (fs\<lparr>dirs := dirs fs @ [p]\<rparr>))"

text \<open>
  \<^verbatim>\<open>shutil.copy2(src, dst)\<close>: into the directory \<open>dst\<close> if it is one, over the file
  \<open>dst\<close> if there is one.
\<close>

definition copy2 :: "path \<Rightarrow> path \<Rightarrow> filesystem \<Rightarrow> error + filesystem" where
  "copy2 src dst fs =
     (let real_dst = (if is_dir fs dst then dst @ [name src] else dst)
      in if real_dst = src then Inl SameFileError
         else case map_of (files fs) src of
                None \<Rightarrow> Inl (if is_dir fs src then IsADirectoryError else FileNotFoundError)
              | Some content \<Rightarrow>
                  if is_dir fs real_dst then Inl IsADirectoryError
                  else if \<not> is_dir fs (parent real_dst) then Inl FileNotFoundError
                  else Inr (write_file fs real_dst content))"

text \<open>
  \<^verbatim>\<open>shutil.move(src, dst)\<close> of a regular file: into the directory \<open>dst\<close> if it is
  one, unless the name is taken there; else \<^verbatim>\<open>os.rename\<close>, which replaces a file.
\<close>

definition move :: "path \<Rightarrow> path \<Rightarrow> filesystem \<Rightarrow> error + filesystem" where
  "move src dst fs =
     (let real_dst = (if is_dir fs dst then dst @ [name src] else dst)
      in if is_dir fs dst \<and> path_exists fs real_dst then Inl DestinationExists
         else case map_of (files fs) src of
                None \<Rightarrow> Inl (if is_dir fs src then IsADirectoryError else FileNotFoundError)
              | Some content \<Rightarrow>
                  if real_dst = src then Inr fs
                  else if \<not> is_dir fs (parent real_dst) then Inl FileNotFoundError
                  else Inr (write_file (remove_file fs src) real_dst content))"

definition backup_path :: "path \<Rightarrow> path" where
  "backup_path old = with_suffix old (suffix_of (name old) @ ''.bak'')"

definition new_dir_names :: "string list" where
  "new_dir_names =
     [''Unit'', ''Integration'', ''Performance'', ''Controller'', ''Command'', ''Factory'',
      ''Framework'', ''Utilities'']"

text \<open>Lines 246 to 251.\<close>

fun create_dirs :: "bool \<Rightarrow> path \<Rightarrow> string list \<Rightarrow> filesystem \<Rightarrow> filesystem \<times> error option" where
  "create_dirs dry_run tests_dir [] fs = (fs, None)"
| "create_dirs dry_run tests_dir (dir_name # rest) fs =
     (if \<not> path_exists fs (tests_dir @ [dir_name]) \<and> \<not> dry_run
      then (case mkdir_p (tests_dir @ [dir_name]) fs of
              Inl e \<Rightarrow> (fs, Some e)
            | Inr fs' \<Rightarrow> create_dirs dry_run tests_dir rest fs')
      else create_dirs dry_run tests_dir rest fs)"

text \<open>Lines 265 to 274: the directory, the backup, the move.\<close>

definition move_entry :: "path \<Rightarrow> path \<Rightarrow> filesystem \<Rightarrow> error + filesystem" where
  "move_entry old new fs =
     (case mkdir_p (parent new) fs of
        Inl e \<Rightarrow> Inl e
      | Inr fs1 \<Rightarrow>
          (case copy2 old (backup_path old) fs1 of
             Inl e \<Rightarrow> Inl e
           | Inr fs2 \<Rightarrow> move old new fs2))"

text \<open>Lines 254 to 274.\<close>

fun move_files :: "bool \<Rightarrow> plan \<Rightarrow> filesystem \<Rightarrow> filesystem \<times> error option" where
  "move_files dry_run [] fs = (fs, None)"
| "move_files dry_run ((old, new) # rename_map) fs =
     (if \<not> path_exists fs old then move_files dry_run rename_map fs
      else if dry_run then move_files dry_run rename_map fs
      else (case move_entry old new fs of
              Inl e \<Rightarrow> (fs, Some e)
            | Inr fs' \<Rightarrow> move_files dry_run rename_map fs'))"

text \<open>Lines 280 to 286, for one of the two extensions.\<close>

definition update_all_includes :: "bool \<Rightarrow> path \<Rightarrow> string \<Rightarrow> plan \<Rightarrow> filesystem \<Rightarrow> filesystem" where
  "update_all_includes dry_run tests_dir ext rename_map fs =
     fold (\<lambda>file_path fs'. snd (update_includes dry_run file_path rename_map fs'))
       (filter (\<lambda>p. endswith (name p) ext) (walk_files tests_dir fs)) fs"

text \<open>
  Lines 294 to 300: the directories below the tests root, the deeper ones first, each
  removed if nothing is left in it.
\<close>

definition is_empty_dir :: "filesystem \<Rightarrow> path \<Rightarrow> bool" where
  "is_empty_dir fs d =
     (\<not> list_ex (below d) (map fst (files fs)) \<and> \<not> list_ex (below d) (dirs fs))"

definition rmdir_if_empty :: "path \<Rightarrow> filesystem \<Rightarrow> filesystem" where
  "rmdir_if_empty d fs = (if is_empty_dir fs d then fs\<lparr>dirs := removeAll d (dirs fs)\<rparr> else fs)"

definition cleanup :: "path \<Rightarrow> filesystem \<Rightarrow> filesystem" where
  "cleanup tests_dir fs =
     fold rmdir_if_empty (rev (sort_key length (filter (below tests_dir) (dirs fs)))) fs"

definition execute_reorganization :: "path \<Rightarrow> bool \<Rightarrow> filesystem \<Rightarrow> filesystem \<times> error option" where
  "execute_reorganization tests_dir dry_run fs =
     (let rename_map = fst (generate_reorganization_plan tests_dir fs)
      in if rename_map = [] then (fs, None)
         else case create_dirs dry_run tests_dir new_dir_names fs of
                (fs1, Some e) \<Rightarrow> (fs1, Some e)
              | (fs1, None) \<Rightarrow>
                  (case move_files dry_run rename_map fs1 of
                     (fs2, Some e) \<Rightarrow> (fs2, Some e)
                   | (fs2, None) \<Rightarrow>
                       (let fs3 = update_all_includes dry_run tests_dir ''.cpp'' rename_map fs2;
                            fs4 = update_all_includes dry_run tests_dir ''.h'' rename_map fs3;
                            fs5 = update_cmake_files dry_run tests_dir rename_map fs4
                        in (if \<not> dry_run then cleanup tests_dir fs5 else fs5, None))))"


section \<open>Auxiliary notions for the statements\<close>

text \<open>The directory words of the classification chain, in the order of their tests.\<close>

definition directory_words :: "string list" where
  "directory_words =
     [''unit'', ''integration'', ''performance'', ''controller'', ''command'', ''factory'']"

text \<open>The category of a file, from its place below the tests root (lines 49 to 73).\<close>

definition category_of :: "path \<Rightarrow> path \<Rightarrow> string" where
  "category_of tests_dir p = classify (rel_str (relative_to (parent p) tests_dir)) (name p)"

text \<open>The files that the classifier looks at: C++ sources and headers, but for the four
  framework files (lines 44 to 47).\<close>

definition is_candidate :: "path \<Rightarrow> bool" where
  "is_candidate p =
     ((endswith (name p) ''.cpp'' \<or> endswith (name p) ''.h'') \<and> name p \<notin> set framework_files)"

text \<open>
  The files that the plan builder enters into the rename map: classified with a category
  other than \<^verbatim>\<open>misc\<close>, not skipped at line 145 and not yet at their target path.
\<close>

definition planned :: "path \<Rightarrow> filesystem \<Rightarrow> path \<Rightarrow> bool" where
  "planned tests_dir fs p =
     (p \<in> set (walk_files tests_dir fs) \<and> is_candidate p
      \<and> category_of tests_dir p \<noteq> ''misc'' \<and> \<not> is_shadow fs p
      \<and> p \<noteq> new_path_of tests_dir p (category_of tests_dir p))"






section \<open>File trees of the scenarios\<close>

text \<open>Two unit tests whose names are cleaned to the same stem.\<close>

definition collision_tree :: filesystem where
  "collision_tree =
     \<lparr>files = [([''tests'', ''unit'', ''test_parser.cpp''], ''// first''),
               ([''tests'', ''unit'', ''parser_test.cpp''], ''// second'')],
      dirs = []\<rparr>"

text \<open>A framework header, a unit test and a backup file of an earlier run.\<close>

definition framework_tree :: filesystem where
  "framework_tree =
     \<lparr>files = [([''tests'', ''unit'', ''TestUtilities.h''], ''// helpers''),
               ([''tests'', ''unit'', ''parser.cpp''], ''// parser''),
               ([''tests'', ''unit'', ''parser.cpp.bak''], ''// an older parser'')],
      dirs = []\<rparr>"

text \<open>
  The scenario of the specification: \<^verbatim>\<open>controller/ActionMapTest.cpp\<close>, which includes
  its header \<^verbatim>\<open>ActionMapTest.h\<close>, and that header. Then the plan of the tree, the
  tree after the moves, and the tree after the rewriting of the include lines.
\<close>

definition include_old :: string where
  "include_old = ''#include '' @ [dquote] @ ''ActionMapTest.h'' @ [dquote, CHR 0x0A]"

definition include_new :: string where
  "include_new = ''#include '' @ [dquote] @ ''Controller_Actionmap_Test.h'' @ [dquote, CHR 0x0A]"

definition header_text :: string where
  "header_text = ''class ActionMapTest;''"

definition action_map_tree :: filesystem where
  "action_map_tree =
     \<lparr>files = [([''tests'', ''controller'', ''ActionMapTest.cpp''],
                 include_old),
               ([''tests'', ''controller'', ''ActionMapTest.h''], header_text)],
      dirs = []\<rparr>"

definition action_map_plan :: plan where
  "action_map_plan =
     [([''tests'', ''controller'', ''ActionMapTest.cpp''],
       [''tests'', ''Controller'', ''Controller_Actionmap_Test.cpp'']),
      ([''tests'', ''controller'', ''ActionMapTest.h''],
       [''tests'', ''Controller'', ''Controller_Actionmap_Test.h''])]"

definition action_map_moved :: filesystem where
  "action_map_moved =
     \<lparr>files = [([''tests'', ''controller'', ''ActionMapTest.cpp.bak''],
                 include_old),
               ([''tests'', ''Controller'', ''Controller_Actionmap_Test.cpp''],
                 include_old),
               ([''tests'', ''controller'', ''ActionMapTest.h.bak''], header_text),
               ([''tests'', ''Controller'', ''Controller_Actionmap_Test.h''],
                 header_text)],
      dirs = [''tests'', ''controller''] # map (\<lambda>d. [''tests'', d]) new_dir_names\<rparr>"

definition action_map_rewritten :: filesystem where
  "action_map_rewritten =
     \<lparr>files = [([''tests'', ''controller'', ''ActionMapTest.cpp.bak''],
                 include_old),
               ([''tests'', ''Controller'', ''Controller_Actionmap_Test.cpp''],
                 include_new),
               ([''tests'', ''controller'', ''ActionMapTest.h.bak''], header_text),
               ([''tests'', ''Controller'', ''Controller_Actionmap_Test.h''],
                 header_text)],
      dirs = [''tests'', ''controller''] # map (\<lambda>d. [''tests'', d]) new_dir_names\<rparr>"

text \<open>
  A unit header and a source outside every category that includes it. Then the plan of
  the tree, the tree after the move, and the tree after the rewriting.
\<close>

definition canvas_old :: string where
  "canvas_old = ''#include '' @ [dquote] @ ''parser.h'' @ [dquote, CHR 0x0A]"

definition canvas_new :: string where
  "canvas_new = ''#include '' @ [dquote] @ ''Unit_Parser_Test.h'' @ [dquote, CHR 0x0A]"

definition parser_text :: string where
  "parser_text = ''class Parser;''"

definition canvas_tree :: filesystem where
  "canvas_tree =
     \<lparr>files = [([''tests'', ''unit'', ''parser.h''], parser_text),
               ([''tests'', ''widgets'', ''canvas.cpp''], canvas_old)],
      dirs = []\<rparr>"

definition canvas_plan :: plan where
  "canvas_plan =
     [([''tests'', ''unit'', ''parser.h''], [''tests'', ''Unit'', ''Unit_Parser_Test.h''])]"

definition canvas_moved :: filesystem where
  "canvas_moved =
     \<lparr>files = [([''tests'', ''widgets'', ''canvas.cpp''], canvas_old),
               ([''tests'', ''unit'', ''parser.h.bak''], parser_text),
               ([''tests'', ''Unit'', ''Unit_Parser_Test.h''], parser_text)],
      dirs = [''tests'', ''unit''] # map (\<lambda>d. [''tests'', d]) new_dir_names\<rparr>"

definition canvas_rewritten :: filesystem where
  "canvas_rewritten =
     \<lparr>files = [([''tests'', ''widgets'', ''canvas.cpp''], canvas_new),
               ([''tests'', ''unit'', ''parser.h.bak''], parser_text),
               ([''tests'', ''Unit'', ''Unit_Parser_Test.h''], parser_text)],
      dirs = [''tests'', ''unit''] # map (\<lambda>d. [''tests'', d]) new_dir_names\<rparr>"








text \<open>
  A unit test whose generated name ends in \<^verbatim>\<open>test_\<close>, and a \<^verbatim>\<open>_new\<close> header beside
  the header it duplicates. Then the plan of the tree, and the tree after the moves and
  after the whole run.
\<close>

definition plain_text :: string where
  "plain_text = ''// no include here''"

definition rerun_tree :: filesystem where
  "rerun_tree =
     \<lparr>files = [([''tests'', ''unit'', ''latest.cpp''], plain_text),
               ([''tests'', ''unit'', ''parser_new.h''], plain_text),
               ([''tests'', ''unit'', ''parser.h''], plain_text)],
      dirs = []\<rparr>"

definition rerun_plan :: plan where
  "rerun_plan =
     [([''tests'', ''unit'', ''latest.cpp''], [''tests'', ''Unit'', ''Unit_Latest_Test.cpp'']),
      ([''tests'', ''unit'', ''parser.h''], [''tests'', ''Unit'', ''Unit_Parser_Test.h''])]"

definition rerun_moved :: filesystem where
  "rerun_moved =
     \<lparr>files = [([''tests'', ''unit'', ''parser_new.h''], plain_text),
               ([''tests'', ''unit'', ''latest.cpp.bak''], plain_text),
               ([''tests'', ''Unit'', ''Unit_Latest_Test.cpp''], plain_text),
               ([''tests'', ''unit'', ''parser.h.bak''], plain_text),
               ([''tests'', ''Unit'', ''Unit_Parser_Test.h''], plain_text)],
      dirs = [''tests'', ''unit''] # map (\<lambda>d. [''tests'', d]) new_dir_names\<rparr>"

definition rerun_done :: filesystem where
  "rerun_done = rerun_moved\<lparr>dirs := [[''tests'', ''unit''], [''tests'', ''Unit'']]\<rparr>"


section \<open>Facts about the string operations\<close>

lemma startswith_iff: "startswith s p \<longleftrightarrow> (\<exists>t. s = p @ t)"
  by (induction s p rule: startswith.induct) auto









section \<open>Classification order\<close>

text \<open>
  Claim C8, as the specification states it: a category word in the directory path
  decides the category whatever the file name is. The chain of tests does not do this:
  the file \<^verbatim>\<open>integration/test_parser.cpp\<close> lies in a directory named
  \<^verbatim>\<open>integration\<close> and is classified as a unit test, because of \<^verbatim>\<open>test_\<close> in its
  name.
\<close>

theorem classify_directory_first_counterexample:
  "contains ''integration'' ''integration''
   \<and> classify ''integration'' ''test_parser.cpp'' = ''unit''"
  by (simp add: classify_def)

text \<open>
  Claim C8, amended: a file whose name contains \<^verbatim>\<open>test_\<close> is a unit test whatever its
  directory is. For every other file the category is the first of the words unit,
  integration, performance, controller, command, factory that occurs in the text of its
  directory relative to the tests root, whatever else the file name contains, and
  \<^verbatim>\<open>misc\<close> if none of them occurs.
\<close>

theorem classify_priority_order:
  "classify rel_path file =
     (if contains file ''test_'' then ''unit''
      else case find (contains rel_path) directory_words of
             None \<Rightarrow> ''misc'' | Some w \<Rightarrow> w)"
  by (simp add: classify_def directory_words_def)


section \<open>Stripping of the noise tokens\<close>





section \<open>Dry run\<close>

lemma create_dirs_dry: "create_dirs True tests_dir ds fs = (fs, None)"
  by (induction ds) auto

lemma move_files_dry: "move_files True rename_map fs = (fs, None)"
  by (induction rename_map) auto

lemma update_includes_dry: "snd (update_includes True file_path rename_map fs) = fs"
  by (simp add: update_includes_def Let_def split: option.splits)

lemma fold_update_includes_dry:
  "fold (\<lambda>file_path fs'. snd (update_includes True file_path rename_map fs')) ps fs = fs"
  by (induction ps) (simp_all add: update_includes_dry)

lemma update_all_includes_dry: "update_all_includes True tests_dir ext rename_map fs = fs"
  by (simp add: update_all_includes_def fold_update_includes_dry)

lemma update_cmake_file_dry: "update_cmake_file True tests_dir cmake_file rename_map fs = fs"
  by (simp add: update_cmake_file_def Let_def split: option.splits)

lemma fold_update_cmake_file_dry:
  "fold (\<lambda>cmake_file. update_cmake_file True tests_dir cmake_file rename_map) ps fs = fs"
  by (induction ps) (simp_all add: update_cmake_file_dry)

lemma update_cmake_files_dry: "update_cmake_files True tests_dir rename_map fs = fs"
  by (simp add: update_cmake_files_def fold_update_cmake_file_dry)

text \<open>
  Claim C5: with \<^verbatim>\<open>dry_run\<close> set, a full run of \<^verbatim>\<open>execute_reorganization\<close> ends
  without an exception and leaves the file tree as it found it: every file with its
  content and every directory, for every tests root and every tree.
\<close>

theorem dry_run_no_mutation: "execute_reorganization tests_dir True fs = (fs, None)"
  by (simp add: execute_reorganization_def Let_def create_dirs_dry move_files_dry
      update_all_includes_dry update_cmake_files_dry)


section \<open>The plan builder\<close>

lemma analyze_loop_eq:
  "analyze_loop td ps st =
     map (\<lambda>(k, xs). (k, xs @ filter (\<lambda>p. is_candidate p \<and> category_of td p = k) ps)) st"
proof (induction ps arbitrary: st)
  case Nil
  then show ?case by (simp add: case_prod_unfold)
next
  case (Cons p ps)
  show ?case
    by (simp add: Cons append_to_def is_candidate_def category_of_def case_prod_unfold)
qed

lemma analyze_current_structure_eq:
  "analyze_current_structure td fs =
     map (\<lambda>k. (k, filter (\<lambda>p. is_candidate p \<and> category_of td p = k) (walk_files td fs)))
       (directory_words @ [''misc''])"
  by (simp add: analyze_current_structure_def analyze_loop_eq initial_structure_def
      directory_words_def)

lemma plan_files_distinct:
  "distinct (map fst rm) \<Longrightarrow> distinct (map fst (plan_files td fs c ps rm))"
  by (induction ps arbitrary: rm) (simp_all add: distinct_update)

lemma needs_move_iff:
  "(name p \<noteq> generate_new_name p c \<or> parent p \<noteq> parent (new_path_of td p c))
     \<longleftrightarrow> p \<noteq> new_path_of td p c"
proof (cases "p = []")
  case True
  then show ?thesis by (simp add: new_path_of_def parent_def butlast_append)
next
  case False
  then have p: "p = butlast p @ [last p]" by simp
  have n: "new_path_of td p c = (td @ [target_dir c]) @ [generate_new_name p c]"
    by (simp add: new_path_of_def)
  have "p = new_path_of td p c \<longleftrightarrow>
          butlast p = td @ [target_dir c] \<and> last p = generate_new_name p c"
    using p n by (metis butlast_snoc last_snoc)
  moreover have "parent (new_path_of td p c) = td @ [target_dir c]"
    by (simp add: new_path_of_def parent_def butlast_append)
  ultimately show ?thesis using False by (auto simp: parent_def name_def)
qed

lemma plan_files_step:
  "plan_files td fs c (p # ps) rm =
     plan_files td fs c ps
       (if \<not> is_shadow fs p \<and> p \<noteq> new_path_of td p c
        then AList.update p (new_path_of td p c) rm else rm)"
  using needs_move_iff[of p c td] by simp

lemma plan_files_map_of:
  "map_of (plan_files td fs c ps rm) k =
     (if k \<in> set ps \<and> \<not> is_shadow fs k \<and> k \<noteq> new_path_of td k c
      then Some (new_path_of td k c) else map_of rm k)"
proof (induction ps arbitrary: rm)
  case Nil
  then show ?case by simp
next
  case (Cons p ps)
  show ?case
    unfolding plan_files_step Cons.IH by (simp add: update_conv')
qed

lemma classify_range: "classify r f \<in> set (directory_words @ [''misc''])"
  by (simp add: classify_def directory_words_def)

lemma plan_distinct: "distinct (map fst (fst (generate_reorganization_plan td fs)))"
  by (simp add: generate_reorganization_plan_def analyze_current_structure_eq
      directory_words_def plan_files_distinct)

lemma plan_map_of:
  "map_of (fst (generate_reorganization_plan td fs)) k =
     (if planned td fs k then Some (new_path_of td k (category_of td k)) else None)"
  using classify_range[of "rel_str (relative_to (parent k) td)" "name k"]
  by (simp add: generate_reorganization_plan_def analyze_current_structure_eq
      directory_words_def plan_files_map_of planned_def)
     (auto simp: category_of_def)

lemma plan_entry_iff:
  "(old, new) \<in> set (fst (generate_reorganization_plan td fs)) \<longleftrightarrow>
     planned td fs old \<and> new = new_path_of td old (category_of td old)"
proof -
  have "(old, new) \<in> set (fst (generate_reorganization_plan td fs)) \<longleftrightarrow>
          map_of (fst (generate_reorganization_plan td fs)) old = Some new"
    using plan_distinct[of td fs] by simp
  then show ?thesis by (auto simp: plan_map_of)
qed

text \<open>The plan of the tree with the two colliding unit tests, step by step.\<close>

lemma collision_structure:
  "analyze_current_structure [''tests''] collision_tree =
     [(''unit'', [[''tests'', ''unit'', ''test_parser.cpp''],
                  [''tests'', ''unit'', ''parser_test.cpp'']]),
      (''integration'', []), (''performance'', []), (''controller'', []),
      (''command'', []), (''factory'', []), (''misc'', [])]"
  by code_simp

lemma collision_names:
  "generate_new_name [''tests'', ''unit'', ''test_parser.cpp''] ''unit'' = ''Unit_Parser_Test.cpp''"
  "generate_new_name [''tests'', ''unit'', ''parser_test.cpp''] ''unit'' = ''Unit_Parser_Test.cpp''"
  by code_simp+

lemma collision_no_shadow:
  "\<not> is_shadow collision_tree [''tests'', ''unit'', ''test_parser.cpp'']"
  "\<not> is_shadow collision_tree [''tests'', ''unit'', ''parser_test.cpp'']"
  by code_simp+

lemma target_dir_unit: "target_dir ''unit'' = ''Unit''"
  by code_simp

text \<open>
  Claim C1, as the specification states it: no two keys of a plan have the same value,
  and files that would collide are both left out. The builder has no such check: the
  unit tests \<^verbatim>\<open>test_parser.cpp\<close> and \<^verbatim>\<open>parser_test.cpp\<close> are both entered, with
  the same target.
\<close>

theorem plan_collision_counterexample:
  "fst (generate_reorganization_plan [''tests''] collision_tree) =
     [([''tests'', ''unit'', ''test_parser.cpp''], [''tests'', ''Unit'', ''Unit_Parser_Test.cpp'']),
      ([''tests'', ''unit'', ''parser_test.cpp''], [''tests'', ''Unit'', ''Unit_Parser_Test.cpp''])]"
  by (simp add: generate_reorganization_plan_def collision_structure collision_names
      collision_no_shadow target_dir_unit new_path_of_def name_def parent_def)

text \<open>
  Claim C1, amended: the keys of a plan are distinct, and a pair is an entry of the plan
  exactly when its first component is a C++ source or header below the tests root, but
  for the framework files, with a category other than \<^verbatim>\<open>misc\<close>, not skipped as a
  \<^verbatim>\<open>_new\<close> duplicate and not yet at its target, and its second component is that
  target, the tests root followed by the category directory and the generated name.
  Whether another file has the same target plays no part: files that collide are all
  entered.
\<close>

theorem plan_keys_distinct_and_entries:
  "distinct (map fst (fst (generate_reorganization_plan tests_dir fs)))
   \<and> ((old, new) \<in> set (fst (generate_reorganization_plan tests_dir fs))) =
       (planned tests_dir fs old \<and> new = new_path_of tests_dir old (category_of tests_dir old))"
  using plan_distinct[of tests_dir fs] plan_entry_iff[of old new tests_dir fs] by simp

lemma collision_planned: "planned [''tests''] collision_tree [''tests'', ''unit'', ''parser_test.cpp'']"
  by code_simp

theorem plan_keys_distinct_and_entries_witness:
  "([''tests'', ''unit'', ''parser_test.cpp''], [''tests'', ''Unit'', ''Unit_Parser_Test.cpp''])
     \<in> set (fst (generate_reorganization_plan [''tests''] collision_tree))
   \<and> ([''tests'', ''unit'', ''parser_test.cpp''], [''tests'', ''Unit'', ''Unit_Other_Test.cpp''])
     \<notin> set (fst (generate_reorganization_plan [''tests''] collision_tree))"
  using plan_keys_distinct_and_entries
     [of "[''tests'']" collision_tree "[''tests'', ''unit'', ''parser_test.cpp'']"
         "[''tests'', ''Unit'', ''Unit_Parser_Test.cpp'']"]
   plan_keys_distinct_and_entries
     [of "[''tests'']" collision_tree "[''tests'', ''unit'', ''parser_test.cpp'']"
         "[''tests'', ''Unit'', ''Unit_Other_Test.cpp'']"]
  by (simp add: collision_planned new_path_of_def collision_names target_dir_unit
      category_of_def classify_def parent_def name_def rel_str_def relative_to_def)


section \<open>What the executor leaves in place\<close>

lemma files_write_file: "map_of (files (write_file fs q c)) = (map_of (files fs))(q \<mapsto> c)"
  by (simp add: write_file_def update_conv')

lemma files_remove_file: "map_of (files (remove_file fs q)) = (map_of (files fs))(q := None)"
  by (simp add: remove_file_def delete_conv')

lemma is_file_map_of: "is_file fs p \<longleftrightarrow> map_of (files fs) p \<noteq> None"
  by (simp add: is_file_def map_of_eq_None_iff)

lemma is_file_write_file: "is_file (write_file fs q c) p \<longleftrightarrow> p = q \<or> is_file fs p"
  by (simp add: is_file_map_of files_write_file)

lemma is_file_remove_file: "is_file (remove_file fs q) p \<longleftrightarrow> p \<noteq> q \<and> is_file fs p"
  by (simp add: is_file_map_of files_remove_file)

lemma mkdir_p_files: "mkdir_p p fs = Inr fs' \<Longrightarrow> files fs' = files fs"
  by (auto simp: mkdir_p_def split: if_splits)

lemma copy2_result:
  "copy2 src dst fs = Inr fs' \<Longrightarrow>
     \<exists>c. map_of (files fs) src = Some c
          \<and> fs' = write_file fs (if is_dir fs dst then dst @ [name src] else dst) c"
  by (auto simp: copy2_def Let_def split: if_splits option.splits)

lemma move_result:
  "move src dst fs = Inr fs' \<Longrightarrow>
     fs' = fs \<and> src = (if is_dir fs dst then dst @ [name src] else dst) \<or>
     (\<exists>c. map_of (files fs) src = Some c
          \<and> fs' = write_file (remove_file fs src) (if is_dir fs dst then dst @ [name src] else dst) c)"
  by (auto simp: move_def Let_def split: if_splits option.splits)

lemma move_entry_keeps:
  assumes "move_entry old new fs = Inr fs'" and "is_file fs p" and "p \<noteq> old"
  shows "is_file fs' p"
proof -
  from assms(1) obtain fs1 fs2 where m: "mkdir_p (parent new) fs = Inr fs1"
    and c: "copy2 old (backup_path old) fs1 = Inr fs2" and v: "move old new fs2 = Inr fs'"
    by (auto simp: move_entry_def split: sum.splits)
  from m assms(2) have "is_file fs1 p" using mkdir_p_files[OF m] by (simp add: is_file_def)
  with copy2_result[OF c] have "is_file fs2 p" by (auto simp: is_file_write_file)
  with move_result[OF v] assms(3) show ?thesis
    by (auto simp: is_file_write_file is_file_remove_file)
qed

lemma move_files_keeps:
  "p \<notin> fst ` set rm \<Longrightarrow> is_file fs p \<Longrightarrow> is_file (fst (move_files dry rm fs)) p"
proof (induction rm arbitrary: fs)
  case Nil
  then show ?case by simp
next
  case (Cons e rm)
  obtain old new where e: "e = (old, new)" by (cases e)
  with Cons.prems have ne: "p \<noteq> old" and rest: "p \<notin> fst ` set rm" by auto
  show ?case
  proof (cases "\<not> path_exists fs old \<or> dry")
    case True
    then show ?thesis using Cons.IH[OF rest Cons.prems(2)] e by auto
  next
    case False
    show ?thesis
    proof (cases "move_entry old new fs")
      case (Inl err)
      then show ?thesis using False e Cons.prems(2) by simp
    next
      case (Inr fs')
      then have "is_file fs' p" using move_entry_keeps Cons.prems(2) ne by blast
      then show ?thesis using Cons.IH[OF rest] False e Inr by simp
    qed
  qed
qed

lemma create_dirs_files: "files (fst (create_dirs dry td ds fs)) = files fs"
proof (induction ds arbitrary: fs)
  case Nil
  then show ?case by simp
next
  case (Cons d ds)
  show ?case
  proof (cases "mkdir_p (td @ [d]) fs")
    case (Inl err)
    then show ?thesis by (simp add: Cons)
  next
    case (Inr fs')
    then have "files fs' = files fs" by (rule mkdir_p_files)
    then show ?thesis using Inr Cons[of fs'] Cons[of fs] by (cases dry) auto
  qed
qed

lemma update_includes_map_of:
  "map_of (files (snd (update_includes dry f rm fs))) p =
     (if p = f \<and> fst (update_includes dry f rm fs) \<and> \<not> dry
      then Some (rewrite_includes rm (universal_newlines (the (map_of (files fs) f))))
      else map_of (files fs) p)"
  by (auto simp: update_includes_def Let_def files_write_file split: option.splits)

lemma update_includes_is_file: "is_file (snd (update_includes dry f rm fs)) p = is_file fs p"
  by (auto simp: update_includes_def Let_def is_file_map_of files_write_file split: option.splits)

lemma update_includes_dirs: "dirs (snd (update_includes dry f rm fs)) = dirs fs"
  by (auto simp: update_includes_def Let_def write_file_def split: option.splits)

lemma fold_update_includes_is_file:
  "is_file (fold (\<lambda>f fs'. snd (update_includes dry f rm fs')) ps fs) p = is_file fs p"
  by (induction ps arbitrary: fs) (simp_all add: update_includes_is_file)

lemma fold_update_includes_other:
  "p \<notin> set ps \<Longrightarrow>
     map_of (files (fold (\<lambda>f fs'. snd (update_includes dry f rm fs')) ps fs)) p = map_of (files fs) p"
  by (induction ps arbitrary: fs) (auto simp: update_includes_map_of)

lemma update_all_includes_is_file:
  "is_file (update_all_includes dry td ext rm fs) p = is_file fs p"
  by (simp add: update_all_includes_def fold_update_includes_is_file)

lemma update_all_includes_other:
  "\<not> endswith (name p) ext \<Longrightarrow>
     map_of (files (update_all_includes dry td ext rm fs)) p = map_of (files fs) p"
  by (simp add: update_all_includes_def fold_update_includes_other)

lemma update_cmake_file_is_file: "is_file (update_cmake_file dry td f rm fs) p = is_file fs p"
  by (auto simp: update_cmake_file_def Let_def is_file_map_of files_write_file split: option.splits)

lemma update_cmake_files_is_file: "is_file (update_cmake_files dry td rm fs) p = is_file fs p"
proof -
  have "is_file (fold (\<lambda>f. update_cmake_file dry td f rm) ps fs) p = is_file fs p" for ps
    by (induction ps arbitrary: fs) (simp_all add: update_cmake_file_is_file)
  then show ?thesis by (simp add: update_cmake_files_def)
qed

lemma rmdir_if_empty_files: "files (rmdir_if_empty d fs) = files fs"
  by (simp add: rmdir_if_empty_def)

lemma cleanup_files: "files (cleanup td fs) = files fs"
proof -
  have "files (fold rmdir_if_empty ds fs) = files fs" for ds
    by (induction ds arbitrary: fs) (simp_all add: rmdir_if_empty_files)
  then show ?thesis by (simp add: cleanup_def)
qed

lemma cleanup_is_file: "is_file (cleanup td fs) p = is_file fs p"
  by (simp add: is_file_def cleanup_files)

lemma execute_keeps:
  assumes "p \<notin> fst ` set (fst (generate_reorganization_plan td fs))" and "is_file fs p"
  shows "is_file (fst (execute_reorganization td dry fs)) p"
proof -
  let ?rm = "fst (generate_reorganization_plan td fs)"
  obtain fs1 e1 where c: "create_dirs dry td new_dir_names fs = (fs1, e1)" by fastforce
  have f1: "is_file fs1 p"
    using create_dirs_files[of dry td new_dir_names fs] c assms(2) by (simp add: is_file_def)
  obtain fs2 e2 where m: "move_files dry ?rm fs1 = (fs2, e2)" by fastforce
  have f2: "is_file fs2 p" using move_files_keeps[OF assms(1) f1, of dry] m by simp
  show ?thesis
    using assms(2) f1 f2 c m
    by (auto simp: execute_reorganization_def Let_def update_all_includes_is_file
        update_cmake_files_is_file cleanup_is_file split: option.splits)
qed

lemma analyze_members:
  "p \<in> set (concat (map snd (analyze_current_structure td fs))) \<longleftrightarrow>
     p \<in> set (walk_files td fs) \<and> is_candidate p"
  using classify_range[of "rel_str (relative_to (parent p) td)" "name p"]
  by (auto simp: analyze_current_structure_eq directory_words_def category_of_def)

lemma plan_key_iff: "p \<in> fst ` set (fst (generate_reorganization_plan td fs)) \<longleftrightarrow> planned td fs p"
proof -
  have "p \<in> fst ` set (fst (generate_reorganization_plan td fs)) \<longleftrightarrow>
          (\<exists>n. (p, n) \<in> set (fst (generate_reorganization_plan td fs)))"
    by force
  then show ?thesis by (simp add: plan_entry_iff)
qed

lemma bak_is_no_source:
  "endswith n ''.bak'' \<Longrightarrow> \<not> endswith n ''.cpp'' \<and> \<not> endswith n ''.h''"
  by (cases "rev n") (auto simp: endswith_def)

lemma plan_target_no_framework_file:
  assumes "name p \<in> set framework_files"
  shows "p \<notin> snd ` set (fst (generate_reorganization_plan td fs))"
proof
  assume "p \<in> snd ` set (fst (generate_reorganization_plan td fs))"
  then obtain old where "(old, p) \<in> set (fst (generate_reorganization_plan td fs))" by force
  then have "p = new_path_of td old (category_of td old)" by (simp add: plan_entry_iff)
  then have "name p = generate_new_name old (category_of td old)"
    by (simp add: new_path_of_def name_def)
  then have "CHR ''_'' \<in> set (name p)" by (simp add: generate_new_name_def Let_def)
  with assms show False by (auto simp: framework_files_def)
qed

text \<open>
  Claim C7: a file below the tests root that bears one of the four framework names is
  put into no category by the classifier, is no key of the rename plan and no target of
  it, and a run of the executor, dry or not, leaves a file at its path: it is neither
  moved nor renamed.
\<close>

theorem framework_files_untouched:
  assumes "name p \<in> set framework_files"
  shows "p \<notin> set (concat (map snd (analyze_current_structure tests_dir fs)))
         \<and> p \<notin> fst ` set (fst (generate_reorganization_plan tests_dir fs))
         \<and> p \<notin> snd ` set (fst (generate_reorganization_plan tests_dir fs))
         \<and> (is_file fs p \<longrightarrow> is_file (fst (execute_reorganization tests_dir dry_run fs)) p)"
proof -
  from assms have nc: "\<not> is_candidate p" by (simp add: is_candidate_def)
  then have k: "p \<notin> fst ` set (fst (generate_reorganization_plan tests_dir fs))"
    by (simp add: plan_key_iff planned_def)
  from nc have "p \<notin> set (concat (map snd (analyze_current_structure tests_dir fs)))"
    unfolding analyze_members by simp
  with k execute_keeps[OF k] plan_target_no_framework_file[OF assms] show ?thesis by blast
qed

theorem framework_files_untouched_witness:
  "[''tests'', ''unit'', ''TestUtilities.h'']
     \<notin> fst ` set (fst (generate_reorganization_plan [''tests''] framework_tree))
   \<and> is_file (fst (execute_reorganization [''tests''] False framework_tree))
       [''tests'', ''unit'', ''TestUtilities.h'']"
  using framework_files_untouched
    [of "[''tests'', ''unit'', ''TestUtilities.h'']" "[''tests'']" framework_tree False]
  by (simp add: name_def framework_files_def is_file_def framework_tree_def)

text \<open>
  Claim C10: a file whose name ends neither in \<^verbatim>\<open>.cpp\<close> nor in \<^verbatim>\<open>.h\<close>, and so
  every backup file, whose name ends in \<^verbatim>\<open>.bak\<close>, is put into no category, is no
  key of a plan, is left at its path by a run of the executor, and keeps its content in
  both passes of the include rewriting, for every plan.
\<close>

theorem only_sources_are_touched:
  assumes "endswith (name p) ''.bak'' \<or> \<not> (endswith (name p) ''.cpp'' \<or> endswith (name p) ''.h'')"
  shows "p \<notin> set (concat (map snd (analyze_current_structure tests_dir fs)))
         \<and> p \<notin> fst ` set (fst (generate_reorganization_plan tests_dir fs))
         \<and> (is_file fs p \<longrightarrow> is_file (fst (execute_reorganization tests_dir dry_run fs)) p)
         \<and> map_of (files (update_all_includes dry_run tests_dir ''.cpp'' rename_map fs)) p
             = map_of (files fs) p
         \<and> map_of (files (update_all_includes dry_run tests_dir ''.h'' rename_map fs)) p
             = map_of (files fs) p"
proof -
  from assms have ns: "\<not> endswith (name p) ''.cpp''" "\<not> endswith (name p) ''.h''"
    using bak_is_no_source by blast+
  then have nc: "\<not> is_candidate p" by (simp add: is_candidate_def)
  then have k: "p \<notin> fst ` set (fst (generate_reorganization_plan tests_dir fs))"
    by (simp add: plan_key_iff planned_def)
  from nc have a: "p \<notin> set (concat (map snd (analyze_current_structure tests_dir fs)))"
    unfolding analyze_members by simp
  show ?thesis
    using a k execute_keeps[OF k] update_all_includes_other[OF ns(1)]
      update_all_includes_other[OF ns(2)] by blast
qed

theorem only_sources_are_touched_witness:
  "[''tests'', ''unit'', ''parser.cpp.bak'']
     \<notin> fst ` set (fst (generate_reorganization_plan [''tests''] framework_tree))
   \<and> is_file (fst (execute_reorganization [''tests''] False framework_tree))
       [''tests'', ''unit'', ''parser.cpp.bak'']"
  using only_sources_are_touched
    [of "[''tests'', ''unit'', ''parser.cpp.bak'']" "[''tests'']" framework_tree False]
  by (simp add: name_def endswith_def is_file_def framework_tree_def)


section \<open>The scenario of \<^verbatim>\<open>controller/ActionMapTest.cpp\<close>\<close>

text \<open>The run of the executor on the tree of the scenario, phase by phase.\<close>

lemmas fs_defs = is_file_def is_dir_def path_exists_def below_def write_file_def remove_file_def
  walk_files_def name_def parent_def

lemma action_map_structure:
  "analyze_current_structure [''tests''] action_map_tree =
     [(''unit'', []), (''integration'', []), (''performance'', []),
      (''controller'', [[''tests'', ''controller'', ''ActionMapTest.cpp''],
                        [''tests'', ''controller'', ''ActionMapTest.h'']]),
      (''command'', []), (''factory'', []), (''misc'', [])]"
  by code_simp

lemma action_map_names:
  "generate_new_name [''tests'', ''controller'', ''ActionMapTest.cpp''] ''controller''
     = ''Controller_Actionmap_Test.cpp''"
  "generate_new_name [''tests'', ''controller'', ''ActionMapTest.h''] ''controller''
     = ''Controller_Actionmap_Test.h''"
  by code_simp+

lemma action_map_no_shadow:
  "\<not> is_shadow action_map_tree [''tests'', ''controller'', ''ActionMapTest.cpp'']"
  "\<not> is_shadow action_map_tree [''tests'', ''controller'', ''ActionMapTest.h'']"
  by code_simp+

lemma target_dir_controller: "target_dir ''controller'' = ''Controller''"
  by code_simp

lemma action_map_plan_eq:
  "fst (generate_reorganization_plan [''tests''] action_map_tree) = action_map_plan"
  by (simp add: generate_reorganization_plan_def action_map_structure action_map_names
      action_map_no_shadow target_dir_controller new_path_of_def name_def parent_def
      action_map_plan_def)

lemma action_map_create_dirs:
  "create_dirs False [''tests''] new_dir_names action_map_tree =
     (action_map_tree\<lparr>dirs := map (\<lambda>d. [''tests'', d]) new_dir_names\<rparr>, None)"
  by (simp add: new_dir_names_def mkdir_p_def fs_defs action_map_tree_def)

lemma action_map_backups:
  "backup_path [''tests'', ''controller'', ''ActionMapTest.cpp'']
     = [''tests'', ''controller'', ''ActionMapTest.cpp.bak'']"
  "backup_path [''tests'', ''controller'', ''ActionMapTest.h'']
     = [''tests'', ''controller'', ''ActionMapTest.h.bak'']"
  by code_simp+

lemma action_map_move_files:
  "move_files False action_map_plan
     (action_map_tree\<lparr>dirs := map (\<lambda>d. [''tests'', d]) new_dir_names\<rparr>)
   = (action_map_moved, None)"
  by (simp add: action_map_plan_def new_dir_names_def move_entry_def mkdir_p_def copy2_def
      move_def action_map_backups fs_defs action_map_tree_def action_map_moved_def)

lemma action_map_rewrite:
  "rewrite_includes action_map_plan include_old = include_new"
  "rewrite_includes action_map_plan header_text = header_text"
  by (simp_all add: action_map_plan_def include_patterns_def py_replace_def name_def dquote_def
      include_old_def include_new_def header_text_def)

lemma action_map_newlines:
  "universal_newlines include_old = include_old"
  "universal_newlines header_text = header_text"
  "include_new \<noteq> include_old"
  by (simp_all add: include_old_def include_new_def header_text_def dquote_def)

lemma action_map_cpp_pass:
  "update_all_includes False [''tests''] ''.cpp'' action_map_plan action_map_moved
     = action_map_rewritten"
  by (simp add: update_all_includes_def update_includes_def Let_def action_map_moved_def
      action_map_rewritten_def action_map_rewrite action_map_newlines fs_defs endswith_def)

lemma action_map_h_pass:
  "update_all_includes False [''tests''] ''.h'' action_map_plan action_map_rewritten
     = action_map_rewritten"
  by (simp add: update_all_includes_def update_includes_def Let_def
      action_map_rewritten_def action_map_rewrite action_map_newlines fs_defs endswith_def)

lemma action_map_cmake:
  "update_cmake_files False [''tests''] action_map_plan action_map_rewritten
     = action_map_rewritten"
  by (simp add: update_cmake_files_def is_cmake_name_def
      action_map_rewritten_def fs_defs endswith_def)

lemma action_map_cleanup:
  "cleanup [''tests''] action_map_rewritten =
     action_map_rewritten\<lparr>dirs := [[''tests'', ''controller''], [''tests'', ''Controller'']]\<rparr>"
  by (simp add: cleanup_def rmdir_if_empty_def is_empty_dir_def new_dir_names_def
      action_map_rewritten_def fs_defs)

lemma action_map_run:
  "execute_reorganization [''tests''] False action_map_tree =
     (action_map_rewritten\<lparr>dirs := [[''tests'', ''controller''], [''tests'', ''Controller'']]\<rparr>,
      None)"
  by (simp add: execute_reorganization_def action_map_plan_eq action_map_create_dirs
      action_map_move_files action_map_cpp_pass action_map_h_pass action_map_cmake
      action_map_cleanup)
     (simp add: action_map_plan_def)

text \<open>
  Claim C2, evaluated on the tree of the scenario: the file is classified as a controller
  test, but \<^verbatim>\<open>capitalize\<close> lowers the \<^verbatim>\<open>M\<close> of \<^verbatim>\<open>ActionMap\<close>, so that the plan
  maps it to \<^verbatim>\<open>Controller/Controller_Actionmap_Test.cpp\<close>, and after the run its include
  line names \<^verbatim>\<open>Controller_Actionmap_Test.h\<close>. The original path is gone, the backup
  is there, and no file has the name \<^verbatim>\<open>Controller_ActionMap_Test.cpp\<close> that the
  specification expects.
\<close>

theorem action_map_scenario:
  "category_of [''tests''] [''tests'', ''controller'', ''ActionMapTest.cpp''] = ''controller''
   \<and> map_of (fst (generate_reorganization_plan [''tests''] action_map_tree))
         [''tests'', ''controller'', ''ActionMapTest.cpp'']
       = Some [''tests'', ''Controller'', ''Controller_Actionmap_Test.cpp'']
   \<and> snd (execute_reorganization [''tests''] False action_map_tree) = None
   \<and> map_of (files (fst (execute_reorganization [''tests''] False action_map_tree)))
         [''tests'', ''Controller'', ''Controller_Actionmap_Test.cpp'']
       = Some (''#include '' @ [dquote] @ ''Controller_Actionmap_Test.h'' @ [dquote, CHR 0x0A])
   \<and> \<not> is_file (fst (execute_reorganization [''tests''] False action_map_tree))
         [''tests'', ''controller'', ''ActionMapTest.cpp'']
   \<and> is_file (fst (execute_reorganization [''tests''] False action_map_tree))
         [''tests'', ''controller'', ''ActionMapTest.cpp.bak'']
   \<and> \<not> is_file (fst (execute_reorganization [''tests''] False action_map_tree))
         [''tests'', ''Controller'', ''Controller_ActionMap_Test.cpp'']"
proof -
  have "category_of [''tests''] [''tests'', ''controller'', ''ActionMapTest.cpp''] = ''controller''"
    by code_simp
  then show ?thesis
    by (simp add: action_map_plan_eq action_map_run)
       (simp add: action_map_plan_def action_map_rewritten_def is_file_def include_new_def)
qed


section \<open>A file rewritten in place\<close>

text \<open>The run of the executor on the tree with the source outside every category.\<close>

lemma canvas_structure:
  "analyze_current_structure [''tests''] canvas_tree =
     [(''unit'', [[''tests'', ''unit'', ''parser.h'']]), (''integration'', []),
      (''performance'', []), (''controller'', []), (''command'', []), (''factory'', []),
      (''misc'', [[''tests'', ''widgets'', ''canvas.cpp'']])]"
  by code_simp

lemma canvas_names:
  "generate_new_name [''tests'', ''unit'', ''parser.h''] ''unit'' = ''Unit_Parser_Test.h''"
  by code_simp

lemma canvas_no_shadow: "\<not> is_shadow canvas_tree [''tests'', ''unit'', ''parser.h'']"
  by code_simp

lemma canvas_plan_eq: "fst (generate_reorganization_plan [''tests''] canvas_tree) = canvas_plan"
  by (simp add: generate_reorganization_plan_def canvas_structure canvas_names
      canvas_no_shadow target_dir_unit new_path_of_def name_def parent_def canvas_plan_def)

lemma canvas_create_dirs:
  "create_dirs False [''tests''] new_dir_names canvas_tree =
     (canvas_tree\<lparr>dirs := map (\<lambda>d. [''tests'', d]) new_dir_names\<rparr>, None)"
  by (simp add: new_dir_names_def mkdir_p_def fs_defs canvas_tree_def)

lemma canvas_backups:
  "backup_path [''tests'', ''unit'', ''parser.h''] = [''tests'', ''unit'', ''parser.h.bak'']"
  "backup_path [''tests'', ''widgets'', ''canvas.cpp''] = [''tests'', ''widgets'', ''canvas.cpp.bak'']"
  by code_simp+

lemma canvas_move_files:
  "move_files False canvas_plan (canvas_tree\<lparr>dirs := map (\<lambda>d. [''tests'', d]) new_dir_names\<rparr>)
   = (canvas_moved, None)"
  by (simp add: canvas_plan_def new_dir_names_def move_entry_def mkdir_p_def copy2_def
      move_def canvas_backups fs_defs canvas_tree_def canvas_moved_def)

lemma canvas_rewrite:
  "rewrite_includes canvas_plan canvas_old = canvas_new"
  "rewrite_includes canvas_plan parser_text = parser_text"
  by (simp_all add: canvas_plan_def include_patterns_def py_replace_def name_def dquote_def
      canvas_old_def canvas_new_def parser_text_def)

lemma canvas_newlines:
  "universal_newlines canvas_old = canvas_old"
  "universal_newlines parser_text = parser_text"
  "canvas_new \<noteq> canvas_old"
  by (simp_all add: canvas_old_def canvas_new_def parser_text_def dquote_def)

lemma canvas_cpp_pass:
  "update_all_includes False [''tests''] ''.cpp'' canvas_plan canvas_moved = canvas_rewritten"
  by (simp add: update_all_includes_def update_includes_def Let_def canvas_moved_def
      canvas_rewritten_def canvas_rewrite canvas_newlines fs_defs endswith_def)

lemma canvas_h_pass:
  "update_all_includes False [''tests''] ''.h'' canvas_plan canvas_rewritten = canvas_rewritten"
  by (simp add: update_all_includes_def update_includes_def Let_def
      canvas_rewritten_def canvas_rewrite canvas_newlines fs_defs endswith_def)

lemma canvas_cmake:
  "update_cmake_files False [''tests''] canvas_plan canvas_rewritten = canvas_rewritten"
  by (simp add: update_cmake_files_def is_cmake_name_def canvas_rewritten_def fs_defs endswith_def)

lemma canvas_cleanup:
  "cleanup [''tests''] canvas_rewritten =
     canvas_rewritten\<lparr>dirs := [[''tests'', ''unit''], [''tests'', ''Unit'']]\<rparr>"
  by (simp add: cleanup_def rmdir_if_empty_def is_empty_dir_def new_dir_names_def
      canvas_rewritten_def fs_defs)

lemma canvas_run:
  "execute_reorganization [''tests''] False canvas_tree =
     (canvas_rewritten\<lparr>dirs := [[''tests'', ''unit''], [''tests'', ''Unit'']]\<rparr>, None)"
  by (simp add: execute_reorganization_def canvas_plan_eq canvas_create_dirs
      canvas_move_files canvas_cpp_pass canvas_h_pass canvas_cmake canvas_cleanup)
     (simp add: canvas_plan_def)

text \<open>
  Claim C6, evaluated: \<^verbatim>\<open>widgets/canvas.cpp\<close> is in no category and is not moved, but
  it includes the header that is renamed. The run rewrites its include line in place,
  and afterwards there is no backup of it: the path that \<^verbatim>\<open>with_suffix\<close> would give
  the backup is no file of the tree. Only the moved header has a backup.
\<close>

theorem rewritten_file_without_backup:
  "map_of (files canvas_tree) [''tests'', ''widgets'', ''canvas.cpp'']
     = Some (''#include '' @ [dquote] @ ''parser.h'' @ [dquote, CHR 0x0A])
   \<and> snd (execute_reorganization [''tests''] False canvas_tree) = None
   \<and> map_of (files (fst (execute_reorganization [''tests''] False canvas_tree)))
         [''tests'', ''widgets'', ''canvas.cpp'']
       = Some (''#include '' @ [dquote] @ ''Unit_Parser_Test.h'' @ [dquote, CHR 0x0A])
   \<and> backup_path [''tests'', ''widgets'', ''canvas.cpp'']
       = [''tests'', ''widgets'', ''canvas.cpp.bak'']
   \<and> \<not> is_file (fst (execute_reorganization [''tests''] False canvas_tree))
         [''tests'', ''widgets'', ''canvas.cpp.bak'']"
  by (simp add: canvas_run canvas_backups)
     (simp add: canvas_tree_def canvas_rewritten_def is_file_def canvas_old_def canvas_new_def)


section \<open>Rewriting twice\<close>












lemma update_includes_reports:
  "fst (update_includes dry f rm fs) \<longleftrightarrow>
     (\<exists>raw. map_of (files fs) f = Some raw
            \<and> rewrite_includes rm (universal_newlines raw) \<noteq> universal_newlines raw)"
  by (auto simp: update_includes_def Let_def split: option.splits)








section \<open>Running the plan builder again\<close>

text \<open>The run of the executor on the tree with the \<^verbatim>\<open>_new\<close> header, and the plan of
  the tree that it leaves.\<close>

lemma rerun_structure:
  "analyze_current_structure [''tests''] rerun_tree =
     [(''unit'', [[''tests'', ''unit'', ''latest.cpp''], [''tests'', ''unit'', ''parser_new.h''],
                  [''tests'', ''unit'', ''parser.h'']]),
      (''integration'', []), (''performance'', []), (''controller'', []), (''command'', []),
      (''factory'', []), (''misc'', [])]"
  by code_simp

lemma rerun_names:
  "generate_new_name [''tests'', ''unit'', ''latest.cpp''] ''unit'' = ''Unit_Latest_Test.cpp''"
  "generate_new_name [''tests'', ''unit'', ''parser.h''] ''unit'' = ''Unit_Parser_Test.h''"
  "generate_new_name [''tests'', ''unit'', ''parser_new.h''] ''unit'' = ''Unit_Parser_Test.h''"
  "generate_new_name [''tests'', ''Unit'', ''Unit_Latest_Test.cpp''] ''unit''
     = ''Unit_UnitLa_Test.cpp''"
  by code_simp+

lemma rerun_shadow:
  "\<not> is_shadow rerun_tree [''tests'', ''unit'', ''latest.cpp'']"
  "is_shadow rerun_tree [''tests'', ''unit'', ''parser_new.h'']"
  "\<not> is_shadow rerun_tree [''tests'', ''unit'', ''parser.h'']"
  by code_simp+

lemma rerun_plan_eq: "fst (generate_reorganization_plan [''tests''] rerun_tree) = rerun_plan"
  by (simp add: generate_reorganization_plan_def rerun_structure rerun_names
      rerun_shadow target_dir_unit new_path_of_def name_def parent_def rerun_plan_def)

lemma rerun_create_dirs:
  "create_dirs False [''tests''] new_dir_names rerun_tree =
     (rerun_tree\<lparr>dirs := map (\<lambda>d. [''tests'', d]) new_dir_names\<rparr>, None)"
  by (simp add: new_dir_names_def mkdir_p_def fs_defs rerun_tree_def)

lemma rerun_backups:
  "backup_path [''tests'', ''unit'', ''latest.cpp''] = [''tests'', ''unit'', ''latest.cpp.bak'']"
  "backup_path [''tests'', ''unit'', ''parser.h''] = [''tests'', ''unit'', ''parser.h.bak'']"
  by code_simp+

lemma rerun_move_files:
  "move_files False rerun_plan (rerun_tree\<lparr>dirs := map (\<lambda>d. [''tests'', d]) new_dir_names\<rparr>)
   = (rerun_moved, None)"
  by (simp add: rerun_plan_def new_dir_names_def move_entry_def mkdir_p_def copy2_def
      move_def rerun_backups fs_defs rerun_tree_def rerun_moved_def)

lemma rerun_rewrite:
  "rewrite_includes rerun_plan plain_text = plain_text"
  "universal_newlines plain_text = plain_text"
  by (simp_all add: rerun_plan_def include_patterns_def py_replace_def name_def dquote_def
      plain_text_def)

lemma rerun_cpp_pass:
  "update_all_includes False [''tests''] ''.cpp'' rerun_plan rerun_moved = rerun_moved"
  by (simp add: update_all_includes_def update_includes_def Let_def rerun_moved_def
      rerun_rewrite fs_defs endswith_def)

lemma rerun_h_pass:
  "update_all_includes False [''tests''] ''.h'' rerun_plan rerun_moved = rerun_moved"
  by (simp add: update_all_includes_def update_includes_def Let_def rerun_moved_def
      rerun_rewrite fs_defs endswith_def)

lemma rerun_cmake:
  "update_cmake_files False [''tests''] rerun_plan rerun_moved = rerun_moved"
  by (simp add: update_cmake_files_def is_cmake_name_def rerun_moved_def fs_defs endswith_def)

lemma rerun_cleanup: "cleanup [''tests''] rerun_moved = rerun_done"
  by (simp add: cleanup_def rmdir_if_empty_def is_empty_dir_def new_dir_names_def
      rerun_moved_def rerun_done_def fs_defs)

lemma rerun_run: "execute_reorganization [''tests''] False rerun_tree = (rerun_done, None)"
  by (simp add: execute_reorganization_def rerun_plan_eq rerun_create_dirs
      rerun_move_files rerun_cpp_pass rerun_h_pass rerun_cmake rerun_cleanup)
     (simp add: rerun_plan_def)

lemma rerun_done_structure:
  "analyze_current_structure [''tests''] rerun_done =
     [(''unit'', [[''tests'', ''unit'', ''parser_new.h''],
                  [''tests'', ''Unit'', ''Unit_Latest_Test.cpp'']]),
      (''integration'', []), (''performance'', []), (''controller'', []), (''command'', []),
      (''factory'', []), (''misc'', [[''tests'', ''Unit'', ''Unit_Parser_Test.h'']])]"
  by code_simp

lemma rerun_done_shadow:
  "\<not> is_shadow rerun_done [''tests'', ''unit'', ''parser_new.h'']"
  "\<not> is_shadow rerun_done [''tests'', ''Unit'', ''Unit_Latest_Test.cpp'']"
  by code_simp+

text \<open>
  Claim C3, as the specification states it: the plan of the tree that a run leaves is
  empty. After the run on the tree below, the plan has two entries: the header
  \<^verbatim>\<open>parser_new.h\<close>, skipped in the first run because \<^verbatim>\<open>parser.h\<close> was there, and
  \<^verbatim>\<open>Unit_Latest_Test.cpp\<close>, whose new name contains \<^verbatim>\<open>test_\<close> and is therefore
  classified as a unit test again.
\<close>

theorem second_plan_counterexample:
  "execute_reorganization [''tests''] False rerun_tree = (rerun_done, None)
   \<and> fst (generate_reorganization_plan [''tests''] rerun_done) =
       [([''tests'', ''unit'', ''parser_new.h''], [''tests'', ''Unit'', ''Unit_Parser_Test.h'']),
        ([''tests'', ''Unit'', ''Unit_Latest_Test.cpp''],
         [''tests'', ''Unit'', ''Unit_UnitLa_Test.cpp''])]"
  by (simp add: rerun_run generate_reorganization_plan_def rerun_done_structure rerun_names
      rerun_done_shadow target_dir_unit new_path_of_def name_def parent_def)

text \<open>The directories and the files of the tree while the executor moves the files.\<close>

lemma below_iff: "below d p \<longleftrightarrow> (\<exists>t. t \<noteq> [] \<and> p = d @ t)"
proof
  assume "below d p"
  then obtain t where "p = d @ t" "p \<noteq> d" by (auto simp: below_def startswith_iff)
  then have "t \<noteq> []" by auto
  with \<open>p = d @ t\<close> show "\<exists>t. t \<noteq> [] \<and> p = d @ t" by blast
next
  assume "\<exists>t. t \<noteq> [] \<and> p = d @ t"
  then obtain t where "t \<noteq> []" "p = d @ t" by blast
  then show "below d p" unfolding below_def startswith_iff by simp
qed

lemma below_trans:
  assumes "below a b" and "below b c" shows "below a c"
proof -
  from assms obtain t u where "t \<noteq> []" "b = a @ t" "u \<noteq> []" "c = b @ u"
    unfolding below_iff by blast
  then have "c = a @ (t @ u)" "t @ u \<noteq> []" by simp_all
  then show ?thesis unfolding below_iff by blast
qed

lemma below_snoc: "below p (q @ [x]) \<longleftrightarrow> p = q \<or> below p q"
proof
  assume "below p (q @ [x])"
  then obtain t where t: "t \<noteq> []" "q @ [x] = p @ t" unfolding below_iff by blast
  then have "t = butlast t @ [last t]" by simp
  with t have "q @ [x] = (p @ butlast t) @ [last t]" by simp
  then have q: "q = p @ butlast t" by (simp only: append1_eq_conv)
  show "p = q \<or> below p q"
  proof (cases "butlast t = []")
    case True
    with q show ?thesis by simp
  next
    case False
    with q show ?thesis unfolding below_iff by blast
  qed
next
  assume "p = q \<or> below p q"
  then show "below p (q @ [x])"
  proof
    assume "p = q"
    then have "q @ [x] = p @ [x]" by simp
    then show ?thesis unfolding below_iff by blast
  next
    assume "below p q"
    then obtain t where "t \<noteq> []" "q = p @ t" unfolding below_iff by blast
    then have "q @ [x] = p @ (t @ [x])" "t @ [x] \<noteq> []" by simp_all
    then show ?thesis unfolding below_iff by blast
  qed
qed

lemma is_dir_iff:
  "is_dir fs p \<longleftrightarrow>
     p = [] \<or> p \<in> set (dirs fs) \<or> (\<exists>q. is_file fs q \<and> below p q)
     \<or> (\<exists>q \<in> set (dirs fs). below p q)"
  by (auto simp: is_dir_def is_file_def list_ex_iff)

lemma is_dir_prefix:
  assumes "is_dir fs q" and "below p q"
  shows "is_dir fs p"
proof -
  from assms(1) consider "q = []" | "q \<in> set (dirs fs)" | r where "is_file fs r" "below q r"
    | r where "r \<in> set (dirs fs)" "below q r"
    unfolding is_dir_iff by blast
  then show ?thesis
  proof cases
    case 1
    with assms(2) show ?thesis unfolding below_iff by simp
  next
    case 2
    with assms(2) show ?thesis unfolding is_dir_iff by blast
  next
    case 3
    with assms(2) have "below p r" by (blast intro: below_trans)
    with 3 show ?thesis unfolding is_dir_iff by blast
  next
    case 4
    with assms(2) have "below p r" by (blast intro: below_trans)
    with 4 show ?thesis unfolding is_dir_iff by blast
  qed
qed

lemma is_dir_of_file: "is_file fs q \<Longrightarrow> below p q \<Longrightarrow> is_dir fs p"
  unfolding is_dir_iff by blast

lemma below_parent: "q \<noteq> [] \<Longrightarrow> below (parent q) q"
proof -
  assume "q \<noteq> []"
  then have "q = butlast q @ [last q]" by simp
  then show ?thesis unfolding parent_def using below_snoc[of "butlast q" "butlast q" "last q"]
    by simp
qed

lemma is_dir_parent_of_file: "is_file fs q \<Longrightarrow> is_dir fs (parent q)"
proof (cases "q = []")
  case True
  then show ?thesis by (simp add: parent_def is_dir_def)
next
  case False
  assume "is_file fs q"
  with below_parent[OF False] show ?thesis by (rule is_dir_of_file[rotated])
qed

lemma mkdir_p_is_dir:
  assumes "mkdir_p x fs = Inr fs'" and "is_dir fs' p"
  shows "is_dir fs p \<or> p = x \<or> below p x"
proof (cases "is_dir fs x")
  case True
  with assms show ?thesis by (simp add: mkdir_p_def)
next
  case False
  with assms(1) have fs': "fs' = fs\<lparr>dirs := dirs fs @ [x]\<rparr>"
    by (auto simp: mkdir_p_def split: if_splits)
  have "is_file fs' = is_file fs" by (simp add: fs' is_file_def fun_eq_iff)
  with assms(2) show ?thesis unfolding is_dir_iff fs' by auto
qed

lemma dirs_write_file: "dirs (write_file fs b c) = dirs fs"
  by (simp add: write_file_def)

lemma dirs_remove_file: "set (dirs (remove_file fs old)) = insert (parent old) (set (dirs fs))"
  by (simp add: remove_file_def)

lemma write_file_is_dir:
  "is_dir (write_file fs b c) p \<longleftrightarrow> is_dir fs p \<or> below p b"
  unfolding is_dir_iff is_file_write_file dirs_write_file by blast

lemma remove_file_is_dir:
  assumes "is_dir (remove_file fs old) p"
  shows "is_dir fs p \<or> p = parent old \<or> below p (parent old)"
  using assms unfolding is_dir_iff is_file_remove_file dirs_remove_file by blast

lemma with_suffix_append: "with_suffix p (suffix_of (name p) @ s) = parent p @ [name p @ s]"
proof (cases "rfind CHR ''.'' (name p)")
  case None
  then show ?thesis by (simp add: with_suffix_def suffix_of_def Let_def)
next
  case (Some i)
  show ?thesis
  proof (cases "0 < i \<and> i + 1 < length (name p)")
    case True
    then have "take (length (name p) - length (drop i (name p))) (name p) = take i (name p)"
      by simp
    then show ?thesis
      using Some True by (simp add: with_suffix_def suffix_of_def Let_def flip: append_assoc)
  next
    case False
    then show ?thesis using Some by (simp add: with_suffix_def suffix_of_def Let_def)
  qed
qed

lemma backup_path_eq: "backup_path old = parent old @ [name old @ ''.bak'']"
  by (simp add: backup_path_def with_suffix_append)

lemma name_snoc: "name (p @ [x]) = x"
  by (simp add: name_def)

lemma parent_snoc: "parent (p @ [x]) = p"
  by (simp add: parent_def)

lemma backup_is_no_candidate: "\<not> is_candidate (backup_path old)"
  by (simp add: is_candidate_def backup_path_eq name_snoc endswith_def)

lemma below_backup:
  assumes "below p (backup_path old)" and "is_file fs old"
  shows "is_dir fs p"
proof -
  from assms(1) have "p = parent old \<or> below p (parent old)"
    unfolding backup_path_eq below_snoc .
  then show ?thesis
    using is_dir_parent_of_file[OF assms(2)] is_dir_prefix by blast
qed

lemma move_entry_step:
  assumes me: "move_entry old new cur = Inr cur'"
    and inv: "\<And>p. is_dir cur p \<Longrightarrow> p \<in> D"
    and closed: "\<And>p q. q \<in> D \<Longrightarrow> below p q \<Longrightarrow> p \<in> D"
    and pn: "parent new \<in> D" and new: "new \<noteq> []"
    and nn: "new \<notin> D" and nb: "backup_path old \<notin> D"
  shows "(\<forall>p. is_dir cur' p \<longrightarrow> p \<in> D)
         \<and> (\<forall>q. is_file cur' q \<longrightarrow> is_file cur q \<and> q \<noteq> old \<or> q = new \<or> q = backup_path old)"
proof -
  from me obtain fs1 fs2 where m: "mkdir_p (parent new) cur = Inr fs1"
    and c: "copy2 old (backup_path old) fs1 = Inr fs2" and v: "move old new fs2 = Inr cur'"
    by (auto simp: move_entry_def split: sum.splits)
  have f1: "is_file fs1 = is_file cur" using mkdir_p_files[OF m] by (simp add: is_file_def fun_eq_iff)
  have d1: "p \<in> D" if "is_dir fs1 p" for p
    using mkdir_p_is_dir[OF m that] inv closed pn by blast
  then have nb1: "\<not> is_dir fs1 (backup_path old)" using nb by blast
  from copy2_result[OF c] nb1 obtain content where old1: "map_of (files fs1) old = Some content"
    and fs2: "fs2 = write_file fs1 (backup_path old) content" by auto
  have of1: "is_file fs1 old" using old1 by (simp add: is_file_map_of)
  have d2: "p \<in> D" if "is_dir fs2 p" for p
    using that d1 below_backup[OF _ of1] unfolding fs2 write_file_is_dir by blast
  then have nn2: "\<not> is_dir fs2 new" using nn by blast
  have f2: "is_file fs2 q \<longleftrightarrow> q = backup_path old \<or> is_file cur q" for q
    by (simp add: fs2 is_file_write_file f1)
  from move_result[OF v] nn2 consider "cur' = fs2" "old = new"
    | c2 where "cur' = write_file (remove_file fs2 old) new c2" "map_of (files fs2) old = Some c2"
    by auto
  then show ?thesis
  proof cases
    case 1
    then show ?thesis using d2 f2 by auto
  next
    case 2
    have of2: "is_file fs2 old" using 2(2) by (simp add: is_file_map_of)
    have "p \<in> D" if "is_dir cur' p" for p
    proof -
      from that have "is_dir (remove_file fs2 old) p \<or> below p new"
        unfolding 2(1) write_file_is_dir .
      then consider "is_dir fs2 p" | "p = parent old" | "below p (parent old)" | "below p new"
        using remove_file_is_dir by blast
      then show ?thesis
      proof cases
        case 1
        then show ?thesis by (rule d2)
      next
        case 2
        then show ?thesis using is_dir_parent_of_file[OF of2] d2 by simp
      next
        case 3
        then show ?thesis using is_dir_parent_of_file[OF of2] is_dir_prefix d2 by blast
      next
        case 4
        from new have "new = parent new @ [last new]" by (simp add: parent_def)
        with 4 have "p = parent new \<or> below p (parent new)" by (metis below_snoc)
        then show ?thesis using pn closed by blast
      qed
    qed
    moreover have "is_file cur q \<and> q \<noteq> old \<or> q = new \<or> q = backup_path old"
      if "is_file cur' q" for q
      using that unfolding 2(1) is_file_write_file is_file_remove_file f2 by blast
    ultimately show ?thesis by blast
  qed
qed

lemma move_files_bound:
  assumes closed: "\<And>p q. q \<in> D \<Longrightarrow> below p q \<Longrightarrow> p \<in> D"
  shows "move_files False rm cur = (fs', None) \<Longrightarrow>
         (\<forall>p. is_dir cur p \<longrightarrow> p \<in> D) \<Longrightarrow>
         (\<forall>(old, new) \<in> set rm.
            parent new \<in> D \<and> new \<noteq> [] \<and> new \<notin> D \<and> backup_path old \<notin> D) \<Longrightarrow>
         is_file fs' q \<Longrightarrow>
           is_file cur q \<and> q \<notin> fst ` set rm \<or> q \<in> snd ` set rm
           \<or> q \<in> backup_path ` fst ` set rm"
proof (induction rm arbitrary: cur)
  case Nil
  then show ?case by simp
next
  case (Cons e rm)
  note run = Cons.prems(1) and inv = Cons.prems(2) and ents0 = Cons.prems(3)
    and q = Cons.prems(4)
  obtain old new where e: "e = (old, new)" by (cases e)
  have ents: "\<forall>(old, new) \<in> set rm.
            parent new \<in> D \<and> new \<noteq> [] \<and> new \<notin> D \<and> backup_path old \<notin> D"
    using ents0 by simp
  have this_entry: "parent new \<in> D" "new \<noteq> []" "new \<notin> D" "backup_path old \<notin> D"
    using ents0 e by simp_all
  show ?case
  proof (cases "path_exists cur old")
    case False
    then have "move_files False rm cur = (fs', None)" using run e by simp
    from Cons.IH[OF this inv ents q]
    have "is_file cur q \<and> q \<notin> fst ` set rm \<or> q \<in> snd ` set rm
          \<or> q \<in> backup_path ` fst ` set rm" .
    moreover have "\<not> is_file cur old" using False by (simp add: path_exists_def)
    ultimately show ?thesis using e by auto
  next
    case True
    show ?thesis
    proof (cases "move_entry old new cur")
      case (Inl err)
      then show ?thesis using run True e by simp
    next
      case (Inr cur')
      then have rest: "move_files False rm cur' = (fs', None)"
        using run True e by simp
      have inv1: "\<And>p. is_dir cur p \<Longrightarrow> p \<in> D" using inv by blast
      have step: "(\<forall>p. is_dir cur' p \<longrightarrow> p \<in> D)
         \<and> (\<forall>q. is_file cur' q \<longrightarrow> is_file cur q \<and> q \<noteq> old \<or> q = new \<or> q = backup_path old)"
        by (rule move_entry_step[OF Inr inv1 closed this_entry])
      then have inv': "\<forall>p. is_dir cur' p \<longrightarrow> p \<in> D" by blast
      from Cons.IH[OF rest inv' ents q]
      have "is_file cur' q \<and> q \<notin> fst ` set rm \<or> q \<in> snd ` set rm
            \<or> q \<in> backup_path ` fst ` set rm" .
      with step show ?thesis using e by auto
    qed
  qed
qed

lemma create_dirs_bound:
  assumes closed: "\<And>p q. q \<in> D \<Longrightarrow> below p q \<Longrightarrow> p \<in> D"
  shows "(\<forall>p. is_dir cur p \<longrightarrow> p \<in> D) \<Longrightarrow> (\<forall>d \<in> set ds. td @ [d] \<in> D) \<Longrightarrow>
         is_dir (fst (create_dirs dry td ds cur)) p \<Longrightarrow> p \<in> D"
proof (induction ds arbitrary: cur)
  case Nil
  then show ?case by simp
next
  case (Cons d ds)
  note inv = Cons.prems(1) and names = Cons.prems(2) and p = Cons.prems(3)
  have rest: "\<forall>x \<in> set ds. td @ [x] \<in> D" using names by simp
  show ?case
  proof (cases "\<not> path_exists cur (td @ [d]) \<and> \<not> dry")
    case False
    then have "create_dirs dry td (d # ds) cur = create_dirs dry td ds cur" by auto
    then show ?thesis using Cons.IH[OF inv rest] p by simp
  next
    case True
    show ?thesis
    proof (cases "mkdir_p (td @ [d]) cur")
      case (Inl err)
      then show ?thesis using True inv p by simp
    next
      case (Inr cur')
      have "td @ [d] \<in> D" using names by simp
      then have "\<forall>x. is_dir cur' x \<longrightarrow> x \<in> D"
        using mkdir_p_is_dir[OF Inr] inv closed by blast
      from Cons.IH[OF this rest] show ?thesis using True Inr p by simp
    qed
  qed
qed

lemma walk_files_iff: "p \<in> set (walk_files td fs) \<longleftrightarrow> is_file fs p \<and> below td p"
  by (auto simp: walk_files_def is_file_def)

lemma plan_empty: "(\<And>k. \<not> planned td fs k) \<Longrightarrow> fst (generate_reorganization_plan td fs) = []"
proof (rule ccontr)
  assume np: "\<And>k. \<not> planned td fs k" and "fst (generate_reorganization_plan td fs) \<noteq> []"
  then obtain k v where "(k, v) \<in> set (fst (generate_reorganization_plan td fs))"
    by (cases "fst (generate_reorganization_plan td fs)") auto
  then have "planned td fs k" by (simp add: plan_entry_iff)
  with np show False by blast
qed

lemma target_dir_values:
  "target_dir ''unit'' = ''Unit''" "target_dir ''integration'' = ''Integration''"
  "target_dir ''performance'' = ''Performance''" "target_dir ''controller'' = ''Controller''"
  "target_dir ''command'' = ''Command''" "target_dir ''factory'' = ''Factory''"
  by code_simp+

lemma target_dir_listed: "c \<in> set directory_words \<Longrightarrow> target_dir c \<in> set new_dir_names"
  by (auto simp: directory_words_def target_dir_values new_dir_names_def)

lemma capital_directory_misc:
  "\<not> contains n ''test_'' \<Longrightarrow> classify ''Unit'' n = ''misc''"
  "\<not> contains n ''test_'' \<Longrightarrow> classify ''Integration'' n = ''misc''"
  "\<not> contains n ''test_'' \<Longrightarrow> classify ''Performance'' n = ''misc''"
  "\<not> contains n ''test_'' \<Longrightarrow> classify ''Controller'' n = ''misc''"
  "\<not> contains n ''test_'' \<Longrightarrow> classify ''Command'' n = ''misc''"
  "\<not> contains n ''test_'' \<Longrightarrow> classify ''Factory'' n = ''misc''"
  by (simp_all add: classify_def)

lemma target_category_misc:
  assumes "c \<in> set directory_words" and "\<not> contains n ''test_''"
  shows "classify (target_dir c) n = ''misc''"
  using assms by (auto simp: directory_words_def target_dir_values capital_directory_misc)

lemma category_of_target: "category_of td (td @ [a, b]) = classify a b"
  by (simp add: category_of_def parent_def name_def relative_to_def rel_str_def butlast_append)

lemma backup_name_not_listed: "n @ ''.bak'' \<notin> set new_dir_names"
proof
  assume "n @ ''.bak'' \<in> set new_dir_names"
  moreover have "endswith (n @ ''.bak'') ''.bak''" by (simp add: endswith_def)
  ultimately show False by (auto simp: new_dir_names_def endswith_def)
qed

lemma category_in_words:
  "category_of td p \<noteq> ''misc'' \<Longrightarrow> category_of td p \<in> set directory_words"
  using classify_range[of "rel_str (relative_to (parent p) td)" "name p"]
  by (simp add: category_of_def)

lemma execute_run_phases:
  assumes "execute_reorganization td False fs = (fs', None)"
    and "fst (generate_reorganization_plan td fs) \<noteq> []"
  obtains fs1 fs2 where "create_dirs False td new_dir_names fs = (fs1, None)"
    and "move_files False (fst (generate_reorganization_plan td fs)) fs1 = (fs2, None)"
    and "\<And>q. is_file fs' q = is_file fs2 q"
proof -
  let ?rm = "fst (generate_reorganization_plan td fs)"
  obtain fs1 e1 where c: "create_dirs False td new_dir_names fs = (fs1, e1)" by fastforce
  obtain fs2 e2 where m: "move_files False ?rm fs1 = (fs2, e2)" by fastforce
  from assms c have e1: "e1 = None"
    by (cases e1) (auto simp: execute_reorganization_def Let_def)
  from assms c m e1 have e2: "e2 = None"
    by (cases e2) (auto simp: execute_reorganization_def Let_def)
  from assms c m e1 e2 have "fs' = cleanup td (update_cmake_files False td ?rm
      (update_all_includes False td ''.h'' ?rm (update_all_includes False td ''.cpp'' ?rm fs2)))"
    by (auto simp: execute_reorganization_def Let_def)
  then have "is_file fs' q = is_file fs2 q" for q
    by (simp add: cleanup_is_file update_cmake_files_is_file update_all_includes_is_file)
  with c m e1 e2 that show thesis by blast
qed

text \<open>
  Claim C3, amended: if a run of the executor that is not dry ends without an exception,
  the first plan skipped no file as a \<^verbatim>\<open>_new\<close> duplicate, no generated name contains
  \<^verbatim>\<open>test_\<close>, and no target path and no backup path of the plan is a directory of the
  tree, then the plan of the tree that the run leaves is empty.
\<close>

theorem second_plan_empty:
  assumes run: "execute_reorganization tests_dir False fs = (fs', None)"
    and no_shadow:
      "list_all (\<lambda>p. \<not> is_shadow fs p)
         (filter (\<lambda>p. is_candidate p \<and> category_of tests_dir p \<noteq> ''misc'')
            (walk_files tests_dir fs))"
    and targets:
      "list_all (\<lambda>(old, new). \<not> contains (name new) ''test_'' \<and> \<not> is_dir fs new
                               \<and> \<not> is_dir fs (backup_path old))
         (fst (generate_reorganization_plan tests_dir fs))"
  shows "fst (generate_reorganization_plan tests_dir fs') = []"
proof (cases "fst (generate_reorganization_plan tests_dir fs) = []")
  case True
  with run have "fs' = fs" by (simp add: execute_reorganization_def)
  with True show ?thesis by simp
next
  case False
  let ?rm = "fst (generate_reorganization_plan tests_dir fs)"
  define D where "D = {p. is_dir fs p} \<union> (\<lambda>d. tests_dir @ [d]) ` set new_dir_names"
  from execute_run_phases[OF run False] obtain fs1 fs2
    where c: "create_dirs False tests_dir new_dir_names fs = (fs1, None)"
      and m: "move_files False ?rm fs1 = (fs2, None)"
      and same: "\<And>q. is_file fs' q = is_file fs2 q" by blast
  from False obtain k0 v0 where "(k0, v0) \<in> set ?rm" by (cases ?rm) auto
  then have "planned tests_dir fs k0" by (simp add: plan_entry_iff)
  then have "is_file fs k0" "below tests_dir k0" by (simp_all add: planned_def walk_files_iff)
  then have root: "is_dir fs tests_dir" by (rule is_dir_of_file)
  have closed: "p \<in> D" if "q \<in> D" "below p q" for p q
  proof (cases "is_dir fs q")
    case True
    with that(2) show ?thesis unfolding D_def using is_dir_prefix by blast
  next
    case False
    with that(1) obtain d where "q = tests_dir @ [d]" unfolding D_def by blast
    with that(2) have "p = tests_dir \<or> below p tests_dir" by (simp add: below_snoc)
    with root show ?thesis unfolding D_def using is_dir_prefix by blast
  qed
  have inv0: "\<forall>p. is_dir fs p \<longrightarrow> p \<in> D" unfolding D_def by blast
  have names: "\<forall>d \<in> set new_dir_names. tests_dir @ [d] \<in> D" unfolding D_def by blast
  have inv1: "\<forall>p. is_dir fs1 p \<longrightarrow> p \<in> D"
  proof (intro allI impI)
    fix p assume "is_dir fs1 p"
    then have d: "is_dir (fst (create_dirs False tests_dir new_dir_names fs)) p" using c by simp
    show "p \<in> D"
      by (rule create_dirs_bound[where D = D, OF _ inv0 names d]) (use closed in blast)
  qed
  have f1: "is_file fs1 q = is_file fs q" for q
    using create_dirs_files[of False tests_dir new_dir_names fs] c by (simp add: is_file_def)
  have entry: "planned tests_dir fs old \<and> new = new_path_of tests_dir old (category_of tests_dir old)
      \<and> \<not> contains (name new) ''test_'' \<and> \<not> is_dir fs new \<and> \<not> is_dir fs (backup_path old)"
    if "(old, new) \<in> set ?rm" for old new
    using that targets plan_entry_iff[of old new tests_dir fs] by (auto simp: list_all_iff)
  have ents: "\<forall>(old, new) \<in> set ?rm.
      parent new \<in> D \<and> new \<noteq> [] \<and> new \<notin> D \<and> backup_path old \<notin> D"
  proof (clarify, intro conjI)
    fix old new assume mem: "(old, new) \<in> set ?rm"
    note e = entry[OF mem]
    let ?c = "category_of tests_dir old"
    from e have cw: "?c \<in> set directory_words"
      by (auto simp: planned_def intro: category_in_words)
    from e have new: "new = tests_dir @ [target_dir ?c, generate_new_name old ?c]"
      by (simp add: new_path_of_def)
    show "parent new \<in> D"
      unfolding D_def new using target_dir_listed[OF cw] by (simp add: parent_def butlast_append)
    show "new \<noteq> []" using new by simp
    show "new \<notin> D" unfolding D_def using e new by auto
    have "backup_path old \<noteq> tests_dir @ [d]" if "d \<in> set new_dir_names" for d
      using that backup_name_not_listed[of "name old"] by (auto simp: backup_path_eq)
    then show "backup_path old \<notin> D" unfolding D_def using e by auto
  qed
  have "\<not> planned tests_dir fs' k" for k
  proof
    assume pl: "planned tests_dir fs' k"
    then have k: "is_file fs' k" "below tests_dir k" "is_candidate k"
      "category_of tests_dir k \<noteq> ''misc''"
      "k \<noteq> new_path_of tests_dir k (category_of tests_dir k)"
      by (simp_all add: planned_def walk_files_iff)
    from k(1) have k2: "is_file fs2 k" by (simp add: same)
    have "is_file fs1 k \<and> k \<notin> fst ` set ?rm \<or> k \<in> snd ` set ?rm
               \<or> k \<in> backup_path ` fst ` set ?rm"
      by (rule move_files_bound[where D = D, OF _ m inv1 ents k2]) (use closed in blast)
    then consider "is_file fs k" "k \<notin> fst ` set ?rm" | "k \<in> snd ` set ?rm"
      | "k \<in> backup_path ` fst ` set ?rm"
      by (auto simp: f1)
    then show False
    proof cases
      case 1
      then have "\<not> planned tests_dir fs k" by (simp add: plan_key_iff)
      with 1(1) k have "is_shadow fs k" by (simp add: planned_def walk_files_iff)
      moreover have "\<not> is_shadow fs k"
        using no_shadow 1(1) k by (simp add: list_all_iff walk_files_iff)
      ultimately show False by blast
    next
      case 2
      then obtain old where mem: "(old, k) \<in> set ?rm" by force
      note e = entry[OF mem]
      let ?c = "category_of tests_dir old"
      from e have cw: "?c \<in> set directory_words"
        by (auto simp: planned_def intro: category_in_words)
      from e have new: "k = tests_dir @ [target_dir ?c, generate_new_name old ?c]"
        by (simp add: new_path_of_def)
      then have "name k = generate_new_name old ?c" by (simp add: name_def)
      with e have "\<not> contains (generate_new_name old ?c) ''test_''" by simp
      from target_category_misc[OF cw this] have "category_of tests_dir k = ''misc''"
        unfolding new category_of_target .
      with k(4) show False by blast
    next
      case 3
      with k(3) show False using backup_is_no_candidate by auto
    qed
  qed
  then show ?thesis by (rule plan_empty)
qed

lemma canvas_walk:
  "walk_files [''tests''] canvas_tree =
     [[''tests'', ''unit'', ''parser.h''], [''tests'', ''widgets'', ''canvas.cpp'']]"
  by (simp add: fs_defs canvas_tree_def)

lemma canvas_categories:
  "category_of [''tests''] [''tests'', ''unit'', ''parser.h''] = ''unit''"
  "category_of [''tests''] [''tests'', ''widgets'', ''canvas.cpp''] = ''misc''"
  by code_simp+

lemma canvas_no_dirs:
  "\<not> is_dir canvas_tree [''tests'', ''Unit'', ''Unit_Parser_Test.h'']"
  "\<not> is_dir canvas_tree [''tests'', ''unit'', ''parser.h.bak'']"
  by (simp_all add: is_dir_def below_def canvas_tree_def)

lemma canvas_candidates:
  "is_candidate [''tests'', ''unit'', ''parser.h'']"
  "is_candidate [''tests'', ''widgets'', ''canvas.cpp'']"
  by code_simp+

lemma canvas_no_shadows:
  "list_all (\<lambda>p. \<not> is_shadow canvas_tree p)
     (filter (\<lambda>p. is_candidate p \<and> category_of [''tests''] p \<noteq> ''misc'')
        (walk_files [''tests''] canvas_tree))"
  by (simp add: canvas_walk canvas_categories canvas_candidates canvas_no_shadow)

lemma canvas_targets:
  "list_all (\<lambda>(old, new). \<not> contains (name new) ''test_'' \<and> \<not> is_dir canvas_tree new
                           \<and> \<not> is_dir canvas_tree (backup_path old))
     (fst (generate_reorganization_plan [''tests''] canvas_tree))"
  by (simp add: canvas_plan_eq canvas_plan_def canvas_backups canvas_no_dirs name_def)

theorem second_plan_empty_witness:
  "execute_reorganization [''tests''] False canvas_tree =
     (canvas_rewritten\<lparr>dirs := [[''tests'', ''unit''], [''tests'', ''Unit'']]\<rparr>, None)
   \<and> list_all (\<lambda>p. \<not> is_shadow canvas_tree p)
       (filter (\<lambda>p. is_candidate p \<and> category_of [''tests''] p \<noteq> ''misc'')
          (walk_files [''tests''] canvas_tree))
   \<and> list_all (\<lambda>(old, new). \<not> contains (name new) ''test_'' \<and> \<not> is_dir canvas_tree new
                             \<and> \<not> is_dir canvas_tree (backup_path old))
       (fst (generate_reorganization_plan [''tests''] canvas_tree))
   \<and> fst (generate_reorganization_plan [''tests'']
            (canvas_rewritten\<lparr>dirs := [[''tests'', ''unit''], [''tests'', ''Unit'']]\<rparr>)) = []"
  using second_plan_empty[OF canvas_run canvas_no_shadows canvas_targets]
    canvas_run canvas_no_shadows canvas_targets
  by simp

end
